theory Spec2Isabelle
  imports Complex_Main "HOL-Library.Word" "HOL-Library.Stream" "HOL-Library.AList"
begin

section \<open>World of Bits: the cell-state core of the four program variants\<close>

text \<open>
  The repository holds four variants of the same program, each a complete \<^verbatim>\<open>main.ts\<close>:
  \<^item> \<^verbatim>\<open>unnamed/part_000\<close>: a static grid around the origin, cell contents generated by the
    \<^verbatim>\<open>luck\<close> hash, kept in \<^verbatim>\<open>cellMap\<close>; definitions carry the suffix \<open>_p0\<close>;
  \<^item> \<^verbatim>\<open>src/main.ts\<close>: a moving window over \<^verbatim>\<open>cellMap\<close>, contents drawn by
    \<^verbatim>\<open>ephemeralRandom\<close>; suffix \<open>_main\<close>;
  \<^item> \<^verbatim>\<open>unnamed/part_002\<close>: the store \<^verbatim>\<open>modifiedCells\<close> (flyweight and memento), contents
    drawn by \<^verbatim>\<open>randomFast\<close>; suffix \<open>_p2\<close>;
  \<^item> \<^verbatim>\<open>unnamed/part_001\<close>: as \<^verbatim>\<open>part_002\<close>, with persistence in \<^verbatim>\<open>localStorage\<close>, two movement
    modes and a restart that re-anchors the origin; suffix \<open>_p1\<close>.
  A definition without suffix has the same text in every variant that uses it.

  Leaflet's map, layers and DOM are the rendering surface and are left out. A JavaScript
  \<^verbatim>\<open>number\<close> is modelled as a real number: cell indices, token values and the score are
  integers far below \<open>2^53\<close>, where the arithmetic of doubles is exact; latitudes and random
  numbers are doubles whose rounding the model does not follow.
\<close>

subsection \<open>Numbers, positions and the session constants\<close>

type_synonym number = real

record LatLng =
  lat :: number
  lng :: number

definition TILE_DEGREES :: number where
  "TILE_DEGREES = 1 / 10000"

definition RENDER_RADIUS :: nat where
  "RENDER_RADIUS = 12"

definition RENDER_RADIUS_p0 :: nat where
  "RENDER_RADIUS_p0 = 60"

definition INTERACT_RANGE :: int where
  "INTERACT_RANGE = 3"

definition TOKEN_SPAWN_PROBABILITY :: number where
  "TOKEN_SPAWN_PROBABILITY = 12 / 100"

definition TARGET_MAX_TOKEN :: number where
  "TARGET_MAX_TOKEN = 32"

definition FALLBACK_LATLNG :: LatLng where
  "FALLBACK_LATLNG = \<lparr>lat = 36997936938057016 / 1000000000000000,
                       lng = - (122057035075011510 / 1000000000000000)\<rparr>"

subsection \<open>Cell keys\<close>

text \<open>
  \<^verbatim>\<open>cellKey(i, j)\<close> is the template string \<^verbatim>\<open>`${i},${j}`\<close>: the decimal text of both indices
  with a comma between them. The indices are integers (results of \<^verbatim>\<open>Math.floor\<close> plus loop
  offsets), whose text is the usual decimal numeral below \<open>10^21\<close>.
\<close>

definition digit_char :: "nat \<Rightarrow> char" where
  "digit_char d = char_of (48 + d)"

fun show_nat :: "nat \<Rightarrow> string" where
  "show_nat n = (if n < 10 then [digit_char n] else show_nat (n div 10) @ [digit_char (n mod 10)])"

declare show_nat.simps [simp del]

definition show_int :: "int \<Rightarrow> string" where
  "show_int i = (if i < 0 then CHR ''-'' # show_nat (nat (- i)) else show_nat (nat i))"

definition cellKey :: "int \<Rightarrow> int \<Rightarrow> string" where
  "cellKey i j = show_int i @ CHR '','' # show_int j"

subsection \<open>The random source\<close>

text \<open>
  \<^verbatim>\<open>randomFast\<close> and \<^verbatim>\<open>ephemeralRandom\<close> ask the platform for a number: one 32-bit word from
  \<^verbatim>\<open>crypto.getRandomValues\<close>, divided by \<^verbatim>\<open>0xffffffff\<close>, or \<^verbatim>\<open>Math.random()\<close> when that
  fails. What the platform answers is an input of the program: a stream of draws that the
  state carries and every call consumes from. A \<^verbatim>\<open>Math.random()\<close> result is a multiple of
  \<open>2^-53\<close> below 1. For a 32-bit draw \<open>w\<close> the exact quotient decides the two tests of the
  generator as the doubles do: \<open>w / 0xffffffff\<close> is never closer than \<open>10^-10\<close> to \<open>0.12\<close>, and
  five times it is an integer exactly when \<open>w\<close> is a multiple of \<open>0x33333333\<close>, where the
  double product is that integer too.
\<close>

datatype draw = Crypto "32 word" | MathRandom "53 word"

definition draw_value :: "draw \<Rightarrow> number" where
  "draw_value d =
     (case d of
        Crypto w \<Rightarrow> of_nat (unat w) / 4294967295
      | MathRandom m \<Rightarrow> of_nat (unat m) / 2 ^ 53)"

subsection \<open>Program state\<close>

text \<open>
  The globals that every variant has: the origin \<^verbatim>\<open>PLAYER_START_LATLNG\<close> (named
  \<^verbatim>\<open>ORIGIN_LATLNG\<close> in \<^verbatim>\<open>part_000\<close>, where the player never leaves it), the player's position,
  the score, the held token, whether the victory overlay is displayed, and the random
  source. \<^verbatim>\<open>src/main.ts\<close> and \<^verbatim>\<open>part_000\<close> add \<^verbatim>\<open>cellMap\<close>, of which the model keeps
  \<^verbatim>\<open>CellInfo.value\<close> under each key; \<^verbatim>\<open>part_002\<close> and \<^verbatim>\<open>part_001\<close> add \<^verbatim>\<open>modifiedCells\<close>, and
  \<^verbatim>\<open>part_001\<close> the movement mode and the item stored in \<^verbatim>\<open>localStorage\<close>. A JavaScript
  \<^verbatim>\<open>Map\<close> is an association list in insertion order with distinct keys: \<^verbatim>\<open>set\<close> is
  \<^const>\<open>AList.update\<close>, \<^verbatim>\<open>get\<close>/\<^verbatim>\<open>has\<close> are \<^const>\<open>map_of\<close>.
\<close>

datatype json =
    JNull
  | JBool bool
  | JNum number
  | JStr string
  | JArr "json list"
  | JObj "(string \<times> json) list"

datatype item = Unparsable | Parses json

datatype mode = Gps | Buttons

record player =
  PLAYER_START_LATLNG :: LatLng
  playerLatLng :: LatLng
  playerPoints :: number
  heldToken :: "number option"
  overlayShown :: bool
  rng :: "draw stream"

record grid_game = player +
  cellMap :: "(string \<times> number option) list"

record store_game = player +
  modifiedCells :: "(string \<times> number option) list"
  movementMode :: mode
  localStorage :: "item option"

definition latLngToCell :: "'a player_scheme \<Rightarrow> number \<Rightarrow> number \<Rightarrow> int \<times> int" where
  "latLngToCell s la lo =
     (let dlat = la - lat (PLAYER_START_LATLNG s);
          dlng = lo - lng (PLAYER_START_LATLNG s)
      in (\<lfloor>dlat / TILE_DEGREES\<rfloor>, \<lfloor>dlng / TILE_DEGREES\<rfloor>))"

definition canInteract :: "'a player_scheme \<Rightarrow> int \<Rightarrow> int \<Rightarrow> bool" where
  "canInteract s i j =
     (let p = latLngToCell s (lat (playerLatLng s)) (lng (playerLatLng s))
      in \<bar>i - fst p\<bar> \<le> INTERACT_RANGE \<and> \<bar>j - snd p\<bar> \<le> INTERACT_RANGE)"

definition canInteract_p0 :: "int \<Rightarrow> int \<Rightarrow> bool" where
  "canInteract_p0 i j = (\<bar>i\<bar> \<le> INTERACT_RANGE \<and> \<bar>j\<bar> \<le> INTERACT_RANGE)"

definition randomFast :: "'a player_scheme \<Rightarrow> number \<times> 'a player_scheme" where
  "randomFast s = (draw_value (shd (rng s)), s\<lparr>rng := stl (rng s)\<rparr>)"

definition ephemeralRandom :: "'a player_scheme \<Rightarrow> number \<times> 'a player_scheme" where
  "ephemeralRandom s = (draw_value (shd (rng s)), s\<lparr>rng := stl (rng s)\<rparr>)"

definition checkVictory :: "'a player_scheme \<Rightarrow> 'a player_scheme" where
  "checkVictory s =
     (case heldToken s of
        None \<Rightarrow> s
      | Some h \<Rightarrow> if h \<ge> TARGET_MAX_TOKEN then s\<lparr>overlayShown := True\<rparr> else s)"

subsection \<open>The visible window\<close>

text \<open>
  The two nested loops of \<^verbatim>\<open>renderVisibleCells\<close> (and of \<^verbatim>\<open>renderGrid\<close>, around the origin
  cell) visit \<open>(c.i + di, c.j + dj)\<close> for \<open>di\<close> and then \<open>dj\<close> from \<open>-r\<close> to \<open>r\<close>.
\<close>

definition visibleCells :: "int \<times> int \<Rightarrow> nat \<Rightarrow> (int \<times> int) list" where
  "visibleCells c r =
     concat (map (\<lambda>di. map (\<lambda>dj. (fst c + di, snd c + dj)) [- int r .. int r]) [- int r .. int r])"

subsection \<open>The cell store of \<^verbatim>\<open>part_002\<close> and \<^verbatim>\<open>part_001\<close>\<close>

text \<open>
  \<^verbatim>\<open>getCellToken\<close> returns the stored content of a key that \<^verbatim>\<open>modifiedCells\<close> has, and
  otherwise draws a content, stores it and returns it. \<^verbatim>\<open>2 ** e\<close> is \<open>2 powi e\<close>.
\<close>

definition getCellToken :: "int \<Rightarrow> int \<Rightarrow> store_game \<Rightarrow> number option \<times> store_game" where
  "getCellToken i j s =
     (let key = cellKey i j in
      case map_of (modifiedCells s) key of
        Some t \<Rightarrow> (t, s)
      | None \<Rightarrow>
          (let (r1, s1) = randomFast s;
               (token, s2) =
                 (if r1 < TOKEN_SPAWN_PROBABILITY
                  then (let (r2, s') = randomFast s1 in (Some (2 powi (1 + \<lfloor>r2 * 5\<rfloor>)), s'))
                  else (None, s1))
           in (token, s2\<lparr>modifiedCells := AList.update key token (modifiedCells s2)\<rparr>)))"

definition serializeState :: "store_game \<Rightarrow> json" where
  "serializeState s =
     (let cells = map (\<lambda>(k, v). JArr [JStr k, (case v of None \<Rightarrow> JNull | Some n \<Rightarrow> JNum n)])
                      (modifiedCells s)
      in JObj
        [(''PLAYER_START_LATLNG'',
            JObj [(''lat'', JNum (lat (PLAYER_START_LATLNG s))),
                  (''lng'', JNum (lng (PLAYER_START_LATLNG s)))]),
         (''playerLatLng'',
            JObj [(''lat'', JNum (lat (playerLatLng s))), (''lng'', JNum (lng (playerLatLng s)))]),
         (''playerPoints'', JNum (playerPoints s)),
         (''heldToken'', (case heldToken s of None \<Rightarrow> JNull | Some n \<Rightarrow> JNum n)),
         (''modifiedCells'', JArr cells),
         (''movementMode'', JStr (case movementMode s of Gps \<Rightarrow> ''gps'' | Buttons \<Rightarrow> ''buttons''))])"

text \<open>
  \<^verbatim>\<open>localStorage\<close> holds text; the model keeps the JSON value that the text denotes, so
  \<^verbatim>\<open>JSON.stringify\<close> and \<^verbatim>\<open>JSON.parse\<close>, which are the platform's, do not appear. A write
  that the platform refuses is caught and logged by the source and is not modelled.
\<close>

definition saveGameState :: "store_game \<Rightarrow> store_game" where
  "saveGameState s = s\<lparr>localStorage := Some (Parses (serializeState s))\<rparr>"

definition clearSavedState :: "store_game \<Rightarrow> store_game" where
  "clearSavedState s = s\<lparr>localStorage := None\<rparr>"

definition saveCell_p2 :: "int \<Rightarrow> int \<Rightarrow> number option \<Rightarrow> store_game \<Rightarrow> store_game" where
  "saveCell_p2 i j v s = s\<lparr>modifiedCells := AList.update (cellKey i j) v (modifiedCells s)\<rparr>"

definition saveCell_p1 :: "int \<Rightarrow> int \<Rightarrow> number option \<Rightarrow> store_game \<Rightarrow> store_game" where
  "saveCell_p1 i j v s =
     saveGameState (s\<lparr>modifiedCells := AList.update (cellKey i j) v (modifiedCells s)\<rparr>)"

text \<open>Of \<^verbatim>\<open>renderCell\<close> the state sees the call of \<^verbatim>\<open>getCellToken\<close>; the rest draws.\<close>

definition renderCell :: "int \<Rightarrow> int \<Rightarrow> store_game \<Rightarrow> store_game" where
  "renderCell i j s = snd (getCellToken i j s)"

definition renderVisibleCells :: "store_game \<Rightarrow> store_game" where
  "renderVisibleCells s =
     (let c = latLngToCell s (lat (playerLatLng s)) (lng (playerLatLng s))
      in fold (\<lambda>(i, j). renderCell i j) (visibleCells c RENDER_RADIUS) s)"

text \<open>The click handler that \<^verbatim>\<open>renderCell(i, j)\<close> attaches to the cell's rectangle.\<close>

definition click_p2 :: "int \<Rightarrow> int \<Rightarrow> store_game \<Rightarrow> store_game" where
  "click_p2 i j s =
     (if \<not> canInteract s i j then s
      else
        let (newToken, s1) = getCellToken i j s;
            s2 = (case heldToken s1 of
                    None \<Rightarrow>
                      (case newToken of
                         None \<Rightarrow> s1
                       | Some v \<Rightarrow>
                           (let sa = saveCell_p2 i j None (s1\<lparr>heldToken := Some v\<rparr>)
                            in sa\<lparr>playerPoints := playerPoints sa + 1\<rparr>))
                  | Some h \<Rightarrow>
                      (case newToken of
                         None \<Rightarrow> (saveCell_p2 i j (Some h) s1)\<lparr>heldToken := None\<rparr>
                       | Some v \<Rightarrow>
                           if v = h
                           then (let merged = h * 2; sa = saveCell_p2 i j None s1
                                 in sa\<lparr>heldToken := Some merged,
                                       playerPoints := playerPoints sa + 2\<rparr>)
                           else s1))
        in renderCell i j (checkVictory s2))"

definition click_p1 :: "int \<Rightarrow> int \<Rightarrow> store_game \<Rightarrow> store_game" where
  "click_p1 i j s =
     (if \<not> canInteract s i j then s
      else
        let (newToken, s1) = getCellToken i j s;
            s2 = (case heldToken s1 of
                    None \<Rightarrow>
                      (case newToken of
                         None \<Rightarrow> s1
                       | Some v \<Rightarrow>
                           (let sa = saveCell_p1 i j None (s1\<lparr>heldToken := Some v\<rparr>)
                            in sa\<lparr>playerPoints := playerPoints sa + 1\<rparr>))
                  | Some h \<Rightarrow>
                      (case newToken of
                         None \<Rightarrow> (saveCell_p1 i j (Some h) s1)\<lparr>heldToken := None\<rparr>
                       | Some v \<Rightarrow>
                           if v = h
                           then (let merged = h * 2; sa = saveCell_p1 i j None s1
                                 in sa\<lparr>heldToken := Some merged,
                                       playerPoints := playerPoints sa + 2\<rparr>)
                           else s1))
        in renderCell i j (saveGameState (checkVictory s2)))"

text \<open>
  Movement. \<^verbatim>\<open>moveend\<close> is the map's event; its argument is the centre that
  \<^verbatim>\<open>map.getCenter()\<close> reports. The keyboard handlers call \<^verbatim>\<open>map.setView\<close>, which raises it.
  \<^verbatim>\<open>watchPosition_p1\<close> is the callback that \<^verbatim>\<open>GeoMovementController\<close> registers: the
  \<^verbatim>\<open>moveend\<close> that its \<^verbatim>\<open>map.setView\<close> raises in GPS mode does nothing in that mode.
\<close>

definition moveend_p2 :: "LatLng \<Rightarrow> store_game \<Rightarrow> store_game" where
  "moveend_p2 c s = renderVisibleCells (s\<lparr>playerLatLng := c\<rparr>)"

definition moveend_p1 :: "LatLng \<Rightarrow> store_game \<Rightarrow> store_game" where
  "moveend_p1 c s =
     (if movementMode s = Buttons
      then saveGameState (renderVisibleCells (s\<lparr>playerLatLng := c\<rparr>))
      else s)"

definition watchPosition_p1 :: "LatLng \<Rightarrow> store_game \<Rightarrow> store_game" where
  "watchPosition_p1 c s = saveGameState (renderVisibleCells (s\<lparr>playerLatLng := c\<rparr>))"

definition setMovementMode :: "mode \<Rightarrow> bool \<Rightarrow> store_game \<Rightarrow> store_game" where
  "setMovementMode m persist s =
     (let s1 = s\<lparr>movementMode := m\<rparr> in if persist then saveGameState s1 else s1)"

definition toggleMovementMode :: "store_game \<Rightarrow> store_game" where
  "toggleMovementMode s =
     (let next = (if movementMode s = Gps then Buttons else Gps) in setMovementMode next True s)"

text \<open>
  \<^verbatim>\<open>restartGame\<close> calls \<^verbatim>\<open>map.setView\<close> in its middle. Whether Leaflet raises \<^verbatim>\<open>moveend\<close>
  from there, and with which centre, is the library's business: the argument \<open>ev\<close> is the
  centre of that nested event, or \<open>None\<close> when there is none.
\<close>

definition restartGame_p2 :: "LatLng option \<Rightarrow> store_game \<Rightarrow> store_game" where
  "restartGame_p2 ev s =
     (let s1 = s\<lparr>overlayShown := False, playerPoints := 0, heldToken := None,
                 modifiedCells := []\<rparr>;
          s2 = (case ev of None \<Rightarrow> s1 | Some c \<Rightarrow> moveend_p2 c s1);
          s3 = s2\<lparr>playerLatLng := PLAYER_START_LATLNG s2\<rparr>
      in renderVisibleCells s3)"

definition restartGame_p1 :: "LatLng option \<Rightarrow> store_game \<Rightarrow> store_game" where
  "restartGame_p1 ev s =
     (let s1 = s\<lparr>overlayShown := False, playerPoints := 0, heldToken := None,
                 modifiedCells := []\<rparr>;
          s2 = s1\<lparr>PLAYER_START_LATLNG := playerLatLng s1\<rparr>;
          s3 = (case ev of None \<Rightarrow> s2 | Some c \<Rightarrow> moveend_p1 c s2);
          s4 = s3\<lparr>playerLatLng := PLAYER_START_LATLNG s3\<rparr>
      in saveGameState (renderVisibleCells s4))"

subsection \<open>Restoring a saved game (\<^verbatim>\<open>part_001\<close>)\<close>

text \<open>
  \<^verbatim>\<open>loadGameState\<close> reads the parsed item field by field. \<open>property\<close> is the property read
  \<^verbatim>\<open>obj.key\<close> on a value other than \<^verbatim>\<open>null\<close> (\<open>None\<close> is \<^verbatim>\<open>undefined\<close>), \<open>truthy\<close> is the test
  of an \<^verbatim>\<open>if\<close>. The function returns \<^verbatim>\<open>false\<close> for a missing item, for text that is empty
  or does not parse, and for the item \<^verbatim>\<open>null\<close>, whose property read throws; all of that
  happens before the first assignment. An item whose position objects or cell entries are
  not of the shape that \<^verbatim>\<open>serializeState\<close> writes is a hand-edited save: what becomes of it
  is decided by the coercions of Leaflet and of the \<^verbatim>\<open>Map\<close>, and the model answers \<open>None\<close>.
\<close>

definition property :: "json \<Rightarrow> string \<Rightarrow> json option" where
  "property obj key = (case obj of JObj fs \<Rightarrow> map_of fs key | _ \<Rightarrow> None)"

definition truthy :: "json \<Rightarrow> bool" where
  "truthy v =
     (case v of
        JNull \<Rightarrow> False
      | JBool b \<Rightarrow> b
      | JNum n \<Rightarrow> n \<noteq> 0
      | JStr t \<Rightarrow> t \<noteq> []
      | JArr _ \<Rightarrow> True
      | JObj _ \<Rightarrow> True)"

definition latLng_of :: "json \<Rightarrow> LatLng option" where
  "latLng_of v =
     (case (property v ''lat'', property v ''lng'') of
        (Some (JNum a), Some (JNum b)) \<Rightarrow> Some \<lparr>lat = a, lng = b\<rparr>
      | _ \<Rightarrow> None)"

fun load_cells :: "json list \<Rightarrow> (string \<times> number option) list \<Rightarrow> (string \<times> number option) list option" where
  "load_cells [] m = Some m"
| "load_cells (JArr (JStr k # JNull # _) # es) m = load_cells es (AList.update k None m)"
| "load_cells (JArr (JStr k # JNum n # _) # es) m = load_cells es (AList.update k (Some n) m)"
| "load_cells (_ # es) m = None"

text \<open>
  The pieces of the body: \<^verbatim>\<open>if (obj.key) X = leaflet.latLng(obj.key.lat, obj.key.lng)\<close> with
  the value that \<open>X\<close> has otherwise, the two numbers guarded by \<^verbatim>\<open>typeof\<close>, and the loop that
  fills the cleared store from \<^verbatim>\<open>obj.modifiedCells\<close> when that is an array.
\<close>

definition load_latLng :: "json \<Rightarrow> string \<Rightarrow> LatLng \<Rightarrow> LatLng option" where
  "load_latLng obj key otherwise =
     (case property obj key of
        None \<Rightarrow> Some otherwise
      | Some v \<Rightarrow> if truthy v then latLng_of v else Some otherwise)"

definition load_points :: "json \<Rightarrow> number" where
  "load_points obj = (case property obj ''playerPoints'' of Some (JNum n) \<Rightarrow> n | _ \<Rightarrow> 0)"

definition load_held :: "json \<Rightarrow> number option" where
  "load_held obj = (case property obj ''heldToken'' of Some (JNum n) \<Rightarrow> Some n | _ \<Rightarrow> None)"

definition load_store :: "json \<Rightarrow> (string \<times> number option) list option" where
  "load_store obj =
     (case property obj ''modifiedCells'' of Some (JArr es) \<Rightarrow> load_cells es [] | _ \<Rightarrow> Some [])"

definition load_mode :: "json \<Rightarrow> mode" where
  "load_mode obj = (if property obj ''movementMode'' = Some (JStr ''buttons'') then Buttons else Gps)"

definition load_parsed :: "json \<Rightarrow> store_game \<Rightarrow> (bool \<times> store_game) option" where
  "load_parsed obj s =
     (case load_latLng obj ''PLAYER_START_LATLNG'' (PLAYER_START_LATLNG s) of
        None \<Rightarrow> None
      | Some start \<Rightarrow>
          (let s1 = s\<lparr>PLAYER_START_LATLNG := start\<rparr> in
           case load_latLng obj ''playerLatLng'' (PLAYER_START_LATLNG s1) of
             None \<Rightarrow> None
           | Some p \<Rightarrow>
               (let s2 = s1\<lparr>playerLatLng := p\<rparr>;
                    s3 = s2\<lparr>playerPoints := load_points obj\<rparr>;
                    s4 = s3\<lparr>heldToken := load_held obj\<rparr>
                in case load_store obj of
                     None \<Rightarrow> None
                   | Some m \<Rightarrow>
                       Some (True, s4\<lparr>modifiedCells := m, movementMode := load_mode obj\<rparr>))))"

definition loadGameState :: "store_game \<Rightarrow> (bool \<times> store_game) option" where
  "loadGameState s =
     (case localStorage s of
        None \<Rightarrow> Some (False, s)
      | Some Unparsable \<Rightarrow> Some (False, s)
      | Some (Parses obj) \<Rightarrow> if obj = JNull then Some (False, s) else load_parsed obj s)"

subsection \<open>The moving window over \<^verbatim>\<open>cellMap\<close> (\<^verbatim>\<open>src/main.ts\<close>)\<close>

text \<open>
  \<^verbatim>\<open>renderCell\<close> draws the content of a cell and stores it under the cell's key. The click
  handler belongs to the rectangle of a cell that \<^verbatim>\<open>cellMap\<close> has: a cell without entry has
  no rectangle to click.
\<close>

definition renderCell_main :: "int \<Rightarrow> int \<Rightarrow> grid_game \<Rightarrow> grid_game" where
  "renderCell_main i j s =
     (let key = cellKey i j;
          (r1, s1) = ephemeralRandom s;
          hasToken = (r1 < TOKEN_SPAWN_PROBABILITY);
          (val, s2) =
            (if hasToken
             then (let (r2, s') = ephemeralRandom s1 in (Some (2 powi (1 + \<lfloor>r2 * 5\<rfloor>)), s'))
             else (None, s1))
      in s2\<lparr>cellMap := AList.update key val (cellMap s2)\<rparr>)"

definition click_main :: "int \<Rightarrow> int \<Rightarrow> grid_game \<Rightarrow> grid_game" where
  "click_main i j s =
     (let key = cellKey i j in
      case map_of (cellMap s) key of
        None \<Rightarrow> s
      | Some val \<Rightarrow>
          if \<not> canInteract s i j then s
          else
            (case heldToken s of
               None \<Rightarrow>
                 (case val of
                    None \<Rightarrow> s
                  | Some v \<Rightarrow>
                      checkVictory
                        (s\<lparr>heldToken := Some v,
                           cellMap := AList.update key None (cellMap s),
                           playerPoints := playerPoints s + 1\<rparr>))
             | Some h \<Rightarrow>
                 (case val of
                    None \<Rightarrow>
                      s\<lparr>cellMap := AList.update key (Some h) (cellMap s), heldToken := None\<rparr>
                  | Some v \<Rightarrow>
                      if v = h
                      then checkVictory
                             (s\<lparr>cellMap := AList.update key None (cellMap s),
                                heldToken := Some (h * 2),
                                playerPoints := playerPoints s + 2\<rparr>)
                      else s)))"

definition renderVisibleCells_main :: "grid_game \<Rightarrow> grid_game" where
  "renderVisibleCells_main s =
     (let c = latLngToCell s (lat (playerLatLng s)) (lng (playerLatLng s));
          cells = visibleCells c RENDER_RADIUS;
          desired = set (map (\<lambda>(i, j). cellKey i j) cells);
          s1 = fold (\<lambda>(i, j) t. if map_of (cellMap t) (cellKey i j) = None
                                  then renderCell_main i j t else t) cells s
      in s1\<lparr>cellMap := filter (\<lambda>(k, c). k \<in> desired) (cellMap s1)\<rparr>)"

definition moveend_main :: "LatLng \<Rightarrow> grid_game \<Rightarrow> grid_game" where
  "moveend_main c s = renderVisibleCells_main (s\<lparr>playerLatLng := c\<rparr>)"

definition restartGame_main :: "LatLng option \<Rightarrow> grid_game \<Rightarrow> grid_game" where
  "restartGame_main ev s =
     (let s1 = s\<lparr>overlayShown := False, playerPoints := 0, heldToken := None, cellMap := []\<rparr>;
          s2 = s1\<lparr>playerLatLng := PLAYER_START_LATLNG s1\<rparr>;
          s3 = (case ev of None \<Rightarrow> s2 | Some c \<Rightarrow> moveend_main c s2)
      in renderVisibleCells_main s3)"

subsection \<open>The static grid (\<^verbatim>\<open>part_000\<close>)\<close>

text \<open>
  \<^verbatim>\<open>part_000\<close> imports \<^verbatim>\<open>luck\<close> from \<^verbatim>\<open>./_luck.ts\<close>, which is not among the sources: the hash
  is a parameter of the model. The player stays at the origin, and \<^verbatim>\<open>renderGrid\<close> runs once.
  The handles that \<^verbatim>\<open>part_000\<close> and \<^verbatim>\<open>src/main.ts\<close> put on \<^verbatim>\<open>globalThis\<close> for the browser console
  (\<^verbatim>\<open>cellMap\<close>, \<^verbatim>\<open>heldToken\<close>, \<^verbatim>\<open>pick\<close>) are debugging aids outside the game and are left out.
\<close>

definition renderCell_p0 :: "(string \<Rightarrow> number) \<Rightarrow> int \<Rightarrow> int \<Rightarrow> grid_game \<Rightarrow> grid_game" where
  "renderCell_p0 luck i j s =
     (let key = cellKey i j;
          seed = cellKey i j @ '',token'';
          hasToken = (luck seed < TOKEN_SPAWN_PROBABILITY);
          initialValue =
            (if hasToken then Some (2 powi (1 + \<lfloor>luck (cellKey i j @ '',value'') * 3\<rfloor>))
             else None)
      in s\<lparr>cellMap := AList.update key initialValue (cellMap s)\<rparr>)"

definition click_p0 :: "int \<Rightarrow> int \<Rightarrow> grid_game \<Rightarrow> grid_game" where
  "click_p0 i j s =
     (let key = cellKey i j in
      case map_of (cellMap s) key of
        None \<Rightarrow> s
      | Some val \<Rightarrow>
          if \<not> canInteract_p0 i j then s
          else
            (case heldToken s of
               None \<Rightarrow>
                 (case val of
                    None \<Rightarrow> s
                  | Some v \<Rightarrow>
                      s\<lparr>heldToken := Some v,
                        cellMap := AList.update key None (cellMap s),
                        playerPoints := playerPoints s + 1\<rparr>)
             | Some h \<Rightarrow>
                 (case val of
                    None \<Rightarrow>
                      s\<lparr>cellMap := AList.update key (Some h) (cellMap s), heldToken := None\<rparr>
                  | Some v \<Rightarrow>
                      if v = h
                      then s\<lparr>cellMap := AList.update key None (cellMap s),
                             heldToken := Some (h * 2),
                             playerPoints := playerPoints s + 2\<rparr>
                      else s)))"

definition renderGrid_p0 :: "(string \<Rightarrow> number) \<Rightarrow> grid_game \<Rightarrow> grid_game" where
  "renderGrid_p0 luck s =
     fold (\<lambda>(i, j). renderCell_p0 luck i j) (visibleCells (0, 0) RENDER_RADIUS_p0)
          (s\<lparr>cellMap := []\<rparr>)"

subsection \<open>Sessions: start-up, events and reachable states\<close>

text \<open>
  The values of the globals when the script starts, and the start-up code of each variant.
  \<open>geo\<close> is the position that the browser reports, \<open>None\<close> when it reports none and the
  origin falls back to the classroom. The start-up of \<^verbatim>\<open>part_001\<close> first tries to restore
  the stored item; \<open>ev\<close> is the centre of the \<^verbatim>\<open>moveend\<close> that its \<^verbatim>\<open>map.setView\<close> raises, if
  any.
\<close>

definition globals_grid :: "draw stream \<Rightarrow> grid_game" where
  "globals_grid g =
     \<lparr>PLAYER_START_LATLNG = FALLBACK_LATLNG, playerLatLng = FALLBACK_LATLNG, playerPoints = 0,
      heldToken = None, overlayShown = False, rng = g, cellMap = []\<rparr>"

definition globals_store :: "draw stream \<Rightarrow> item option \<Rightarrow> store_game" where
  "globals_store g st =
     \<lparr>PLAYER_START_LATLNG = FALLBACK_LATLNG, playerLatLng = FALLBACK_LATLNG, playerPoints = 0,
      heldToken = None, overlayShown = False, rng = g, modifiedCells = [],
      movementMode = Gps, localStorage = st\<rparr>"

definition position_or_fallback :: "LatLng option \<Rightarrow> LatLng" where
  "position_or_fallback geo = (case geo of Some p \<Rightarrow> p | None \<Rightarrow> FALLBACK_LATLNG)"

definition startup_p0 :: "(string \<Rightarrow> number) \<Rightarrow> LatLng option \<Rightarrow> draw stream \<Rightarrow> grid_game" where
  "startup_p0 luck geo g =
     (let origin = position_or_fallback geo
      in renderGrid_p0 luck ((globals_grid g)\<lparr>PLAYER_START_LATLNG := origin, playerLatLng := origin\<rparr>))"

definition startup_main :: "LatLng option \<Rightarrow> draw stream \<Rightarrow> grid_game" where
  "startup_main geo g =
     (let origin = position_or_fallback geo
      in renderVisibleCells_main
           ((globals_grid g)\<lparr>PLAYER_START_LATLNG := origin, playerLatLng := origin\<rparr>))"

definition startup_p2 :: "LatLng option \<Rightarrow> draw stream \<Rightarrow> store_game" where
  "startup_p2 geo g =
     (let origin = position_or_fallback geo
      in renderVisibleCells
           ((globals_store g None)\<lparr>PLAYER_START_LATLNG := origin, playerLatLng := origin\<rparr>))"

definition startup_p1 ::
  "LatLng option \<Rightarrow> LatLng option \<Rightarrow> item option \<Rightarrow> draw stream \<Rightarrow> store_game option" where
  "startup_p1 geo ev st g =
     (case loadGameState (globals_store g st) of
        None \<Rightarrow> None
      | Some (hasSaved, s1) \<Rightarrow>
          (let origin = position_or_fallback geo;
               s2 = (if \<not> hasSaved
                     then s1\<lparr>PLAYER_START_LATLNG := origin, playerLatLng := origin\<rparr>
                     else s1);
               s3 = renderVisibleCells s2;
               s4 = setMovementMode (movementMode s3) False s3;
               s5 = (case ev of None \<Rightarrow> s4 | Some c \<Rightarrow> moveend_p1 c s4);
               s6 = renderVisibleCells s5
           in Some (saveGameState s6)))"

text \<open>
  The input events of a running session. A variant without handler for an event ignores
  it: \<^verbatim>\<open>part_000\<close> has clicks only, the position watcher and the mode toggle exist in
  \<^verbatim>\<open>part_001\<close> only. Every event may occur in every state, which allows more runs than the
  browser produces (a rectangle is clicked only while it is on the map, the position watcher
  of \<^verbatim>\<open>part_001\<close> is registered in GPS mode only); what holds of all runs of the model holds of
  these.
\<close>

datatype event =
    MoveEnd LatLng
  | WatchPosition LatLng
  | Click int int
  | Restart "LatLng option"
  | ToggleMode

fun step_p0 :: "event \<Rightarrow> grid_game \<Rightarrow> grid_game" where
  "step_p0 (Click i j) s = click_p0 i j s"
| "step_p0 _ s = s"

fun step_main :: "event \<Rightarrow> grid_game \<Rightarrow> grid_game" where
  "step_main (MoveEnd c) s = moveend_main c s"
| "step_main (Click i j) s = click_main i j s"
| "step_main (Restart ev) s = restartGame_main ev s"
| "step_main _ s = s"

fun step_p2 :: "event \<Rightarrow> store_game \<Rightarrow> store_game" where
  "step_p2 (MoveEnd c) s = moveend_p2 c s"
| "step_p2 (Click i j) s = click_p2 i j s"
| "step_p2 (Restart ev) s = restartGame_p2 ev s"
| "step_p2 _ s = s"

fun step_p1 :: "event \<Rightarrow> store_game \<Rightarrow> store_game" where
  "step_p1 (MoveEnd c) s = moveend_p1 c s"
| "step_p1 (WatchPosition c) s = watchPosition_p1 c s"
| "step_p1 (Click i j) s = click_p1 i j s"
| "step_p1 (Restart ev) s = restartGame_p1 ev s"
| "step_p1 ToggleMode s = toggleMovementMode s"

inductive reachable_p0 :: "(string \<Rightarrow> number) \<Rightarrow> grid_game \<Rightarrow> bool" for luck where
  start_p0: "reachable_p0 luck (startup_p0 luck geo g)"
| step_p0: "reachable_p0 luck s \<Longrightarrow> reachable_p0 luck (step_p0 e s)"

inductive reachable_main :: "grid_game \<Rightarrow> bool" where
  start_main: "reachable_main (startup_main geo g)"
| step_main: "reachable_main s \<Longrightarrow> reachable_main (step_main e s)"

inductive reachable_p2 :: "store_game \<Rightarrow> bool" where
  start_p2: "reachable_p2 (startup_p2 geo g)"
| step_p2: "reachable_p2 s \<Longrightarrow> reachable_p2 (step_p2 e s)"

text \<open>
  In \<^verbatim>\<open>part_001\<close> a session starts with nothing stored, or it is a reload that finds the item
  which an earlier session has left.
\<close>

inductive reachable_p1 :: "store_game \<Rightarrow> bool" where
  fresh_p1: "startup_p1 geo ev None g = Some s \<Longrightarrow> reachable_p1 s"
| reload_p1: "reachable_p1 t \<Longrightarrow> startup_p1 geo ev (localStorage t) g = Some s \<Longrightarrow> reachable_p1 s"
| step_p1: "reachable_p1 s \<Longrightarrow> reachable_p1 (step_p1 e s)"

text \<open>The sessions of \<^verbatim>\<open>part_001\<close> that never restore anything: a fresh start-up and events.\<close>

inductive reachable_fresh_p1 :: "store_game \<Rightarrow> bool" where
  start_fresh_p1: "startup_p1 geo ev None g = Some s \<Longrightarrow> reachable_fresh_p1 s"
| step_fresh_p1: "reachable_fresh_p1 s \<Longrightarrow> reachable_fresh_p1 (step_p1 e s)"

subsection \<open>Notions used by the statements\<close>

text \<open>
  What an interaction on cell \<open>(i, j)\<close> is about: the held token, the content of the cell
  (\<open>None\<close> while the cell has no entry) and the score. A token value of the doubling family
  is a power of two that is at least 2; a state has its tokens in order when the held token
  and every stored cell content is \<open>None\<close> or such a value.
\<close>

definition observe_grid :: "grid_game \<Rightarrow> int \<Rightarrow> int \<Rightarrow> number option \<times> number option option \<times> number" where
  "observe_grid s i j = (heldToken s, map_of (cellMap s) (cellKey i j), playerPoints s)"

definition observe_store :: "store_game \<Rightarrow> int \<Rightarrow> int \<Rightarrow> number option \<times> number option option \<times> number" where
  "observe_store s i j = (heldToken s, map_of (modifiedCells s) (cellKey i j), playerPoints s)"

definition doubling_token :: "number option \<Rightarrow> bool" where
  "doubling_token t = (case t of None \<Rightarrow> True | Some v \<Rightarrow> (\<exists>k::nat. 1 \<le> k \<and> v = 2 ^ k))"

definition tokens_ok_store :: "store_game \<Rightarrow> bool" where
  "tokens_ok_store s =
     (doubling_token (heldToken s) \<and> (\<forall>x \<in> set (modifiedCells s). doubling_token (snd x)))"

definition tokens_ok_grid :: "grid_game \<Rightarrow> bool" where
  "tokens_ok_grid s =
     (doubling_token (heldToken s) \<and> (\<forall>x \<in> set (cellMap s). doubling_token (snd x)))"

definition leaves_cell :: "int \<Rightarrow> int \<Rightarrow> event \<Rightarrow> bool" where
  "leaves_cell i j e =
     (case e of Click i' j' \<Rightarrow> (i', j') \<noteq> (i, j) | Restart ev \<Rightarrow> False | _ \<Rightarrow> True)"

definition keys_of :: "(string \<times> 'v) list \<Rightarrow> string set" where
  "keys_of m = fst ` set m"

definition window_keys :: "'a player_scheme \<Rightarrow> string set" where
  "window_keys s =
     (\<lambda>(i, j). cellKey i j) `
       set (visibleCells (latLngToCell s (lat (playerLatLng s)) (lng (playerLatLng s))) RENDER_RADIUS)"

text \<open>The body of the first loop of \<^verbatim>\<open>renderVisibleCells\<close> in \<^verbatim>\<open>src/main.ts\<close>.\<close>

definition render_missing :: "int \<times> int \<Rightarrow> grid_game \<Rightarrow> grid_game" where
  "render_missing = (\<lambda>(i, j) t. if map_of (cellMap t) (cellKey i j) = None
                                  then renderCell_main i j t else t)"

text \<open>
  Inputs for the scenarios below: a random source whose every draw is \<^verbatim>\<open>0xffffffff\<close>, so that
  no token spawns, one whose draws alternate between \<open>0\<close> and a word just above four fifths
  of \<^verbatim>\<open>0xffffffff\<close>, so that every generated cell holds a 32, and a position twenty cells
  north of the classroom.
\<close>

definition dry :: "draw stream" where
  "dry = sconst (Crypto 4294967295)"

definition rich :: "draw stream" where
  "rich = cycle [Crypto 0, Crypto 3435973837]"

definition far_north :: LatLng where
  "far_north = \<lparr>lat = lat FALLBACK_LATLNG + 20 * TILE_DEGREES, lng = lng FALLBACK_LATLNG\<rparr>"

text \<open>
  A session at the classroom whose store (or \<^verbatim>\<open>cellMap\<close>) has the single cell \<open>(0, 0)\<close> with a
  given content, and a given token in the hand.
\<close>

definition store_with :: "number option \<Rightarrow> number option \<Rightarrow> store_game" where
  "store_with held cell =
     (globals_store dry None)\<lparr>heldToken := held, modifiedCells := [(cellKey 0 0, cell)]\<rparr>"

definition grid_with :: "number option \<Rightarrow> number option \<Rightarrow> grid_game" where
  "grid_with held cell =
     (globals_grid dry)\<lparr>heldToken := held, cellMap := [(cellKey 0 0, cell)]\<rparr>"

subsection \<open>Cell keys are injective\<close>

lemma of_char_digit_char: "d < 10 \<Longrightarrow> (of_char (digit_char d) :: nat) = 48 + d"
  by (simp add: digit_char_def)

lemma digit_char_inj: "a < 10 \<Longrightarrow> b < 10 \<Longrightarrow> digit_char a = digit_char b \<Longrightarrow> a = b"
proof -
  assume a: "a < 10" and b: "b < 10" and e: "digit_char a = digit_char b"
  from e have "(of_char (digit_char a) :: nat) = of_char (digit_char b)" by simp
  with a b show ?thesis by (simp add: of_char_digit_char)
qed

lemma digit_char_not_sep: "d < 10 \<Longrightarrow> digit_char d \<noteq> CHR ''-'' \<and> digit_char d \<noteq> CHR '',''"
proof -
  assume d: "d < 10"
  have "(of_char (digit_char d) :: nat) \<noteq> of_char CHR ''-''"
    and "(of_char (digit_char d) :: nat) \<noteq> of_char CHR '',''"
    using d by (simp_all add: of_char_digit_char)
  then show ?thesis by auto
qed

lemma show_nat_not_Nil: "show_nat n \<noteq> []"
  by (subst show_nat.simps) simp

lemma show_nat_chars: "c \<in> set (show_nat n) \<Longrightarrow> c \<noteq> CHR ''-'' \<and> c \<noteq> CHR '',''"
proof (induction n rule: show_nat.induct)
  case (1 n)
  show ?case
  proof (cases "n < 10")
    case True
    with "1.prems" have "c = digit_char n" by (subst (asm) show_nat.simps) simp
    with True show ?thesis by (simp add: digit_char_not_sep)
  next
    case False
    with "1.prems" have "c \<in> set (show_nat (n div 10)) \<or> c = digit_char (n mod 10)"
      by (subst (asm) show_nat.simps) auto
    then show ?thesis
    proof
      assume "c \<in> set (show_nat (n div 10))"
      with False "1.IH" show ?thesis by simp
    next
      assume "c = digit_char (n mod 10)"
      then show ?thesis by (simp add: digit_char_not_sep)
    qed
  qed
qed

lemma show_nat_inj: "show_nat a = show_nat b \<Longrightarrow> a = b"
proof (induction a arbitrary: b rule: show_nat.induct)
  case (1 a)
  show ?case
  proof (cases "a < 10")
    case a: True
    show ?thesis
    proof (cases "b < 10")
      case True
      with a "1.prems" show ?thesis
        by (subst (asm) show_nat.simps, subst (asm) (2) show_nat.simps) (simp add: digit_char_inj)
    next
      case False
      from a have "length (show_nat a) = 1" by (subst show_nat.simps) simp
      moreover from False have "length (show_nat b) = Suc (length (show_nat (b div 10)))"
        by (subst show_nat.simps) simp
      moreover have "length (show_nat (b div 10)) \<noteq> 0" by (simp add: show_nat_not_Nil)
      ultimately show ?thesis using "1.prems" by simp
    qed
  next
    case a: False
    show ?thesis
    proof (cases "b < 10")
      case True
      then have "length (show_nat b) = 1" by (subst show_nat.simps) simp
      moreover from a have "length (show_nat a) = Suc (length (show_nat (a div 10)))"
        by (subst show_nat.simps) simp
      moreover have "length (show_nat (a div 10)) \<noteq> 0" by (simp add: show_nat_not_Nil)
      ultimately show ?thesis using "1.prems" by simp
    next
      case False
      have ea: "show_nat a = show_nat (a div 10) @ [digit_char (a mod 10)]"
        using a by (subst show_nat.simps) simp
      have eb: "show_nat b = show_nat (b div 10) @ [digit_char (b mod 10)]"
        using False by (subst show_nat.simps) simp
      from "1.prems" ea eb have h: "show_nat (a div 10) = show_nat (b div 10)"
        and d: "digit_char (a mod 10) = digit_char (b mod 10)" by simp_all
      from "1.IH" [OF a h] have "a div 10 = b div 10" .
      moreover from d have "a mod 10 = b mod 10" by (rule digit_char_inj [rotated 2]) simp_all
      ultimately show ?thesis by (metis div_mult_mod_eq)
    qed
  qed
qed

lemma show_int_chars: "CHR '','' \<notin> set (show_int i)"
  using show_nat_chars by (auto simp: show_int_def)

lemma show_int_inj: "show_int a = show_int b \<Longrightarrow> a = b"
proof -
  assume e: "show_int a = show_int b"
  have hd: "\<And>n. hd (show_nat n) \<noteq> CHR ''-''"
    using show_nat_chars show_nat_not_Nil by (metis hd_in_set)
  have ne: "\<And>n m. CHR ''-'' # show_nat n \<noteq> show_nat m"
    using hd by (metis list.sel(1))
  show ?thesis
  proof (cases "a < 0")
    case a: True
    show ?thesis
    proof (cases "b < 0")
      case True
      with a e have "nat (- a) = nat (- b)" by (simp add: show_int_def show_nat_inj)
      with a True show ?thesis by simp
    next
      case False
      with a e ne show ?thesis by (simp add: show_int_def)
    qed
  next
    case a: False
    show ?thesis
    proof (cases "b < 0")
      case True
      with a e ne [of "nat (- b)" "nat a"] show ?thesis by (simp add: show_int_def)
    next
      case False
      with a e have "nat a = nat b" by (simp add: show_int_def show_nat_inj)
      with a False show ?thesis by simp
    qed
  qed
qed

lemma split_at_sep:
  assumes "xs @ c # ys = xs' @ c # ys'" and "c \<notin> set xs" and "c \<notin> set xs'"
  shows "xs = xs' \<and> ys = ys'"
proof -
  have t: "\<And>zs ws. c \<notin> set zs \<Longrightarrow> takeWhile (\<lambda>x. x \<noteq> c) (zs @ c # ws) = zs"
  proof -
    fix zs ws show "c \<notin> set zs \<Longrightarrow> takeWhile (\<lambda>x. x \<noteq> c) (zs @ c # ws) = zs"
      by (induction zs) auto
  qed
  from t [OF assms(2), of ys] t [OF assms(3), of ys'] have "xs = xs'" using assms(1) by simp
  with assms(1) show ?thesis by simp
qed

lemma cellKey_inj: "cellKey i j = cellKey i' j' \<longleftrightarrow> i = i' \<and> j = j'"
proof
  assume "cellKey i j = cellKey i' j'"
  then have "show_int i = show_int i' \<and> show_int j = show_int j'"
    unfolding cellKey_def by (rule split_at_sep) (rule show_int_chars)+
  then show "i = i' \<and> j = j'" by (simp add: show_int_inj)
qed simp

lemma digit_char_numerals:
  "digit_char 0 = CHR ''0''" "digit_char 1 = CHR ''1''" "digit_char 2 = CHR ''2''"
  "digit_char 3 = CHR ''3''" "digit_char 4 = CHR ''4''" "digit_char 5 = CHR ''5''"
  "digit_char 6 = CHR ''6''" "digit_char 7 = CHR ''7''" "digit_char 8 = CHR ''8''"
  "digit_char 9 = CHR ''9''"
  by code_simp+

lemmas cellKey_eval = cellKey_def show_int_def show_nat.simps digit_char_numerals

lemma cellKey_0_0: "cellKey 0 0 = ''0,0''"
  by (simp add: cellKey_eval)

subsection \<open>The window is the square of cells around its centre\<close>

lemma set_visibleCells:
  "set (visibleCells p r) = {(i, j). \<bar>i - fst p\<bar> \<le> int r \<and> \<bar>j - snd p\<bar> \<le> int r}"
proof (rule set_eqI)
  fix x :: "int \<times> int"
  obtain i j where x: "x = (i, j)" by (cases x)
  have "(i, j) \<in> set (visibleCells p r) \<longleftrightarrow>
        (\<exists>di\<in>{- int r .. int r}. \<exists>dj\<in>{- int r .. int r}. i = fst p + di \<and> j = snd p + dj)"
    by (auto simp: visibleCells_def)
  also have "\<dots> \<longleftrightarrow> \<bar>i - fst p\<bar> \<le> int r \<and> \<bar>j - snd p\<bar> \<le> int r"
  proof
    assume "\<exists>di\<in>{- int r .. int r}. \<exists>dj\<in>{- int r .. int r}. i = fst p + di \<and> j = snd p + dj"
    then show "\<bar>i - fst p\<bar> \<le> int r \<and> \<bar>j - snd p\<bar> \<le> int r" by auto
  next
    assume a: "\<bar>i - fst p\<bar> \<le> int r \<and> \<bar>j - snd p\<bar> \<le> int r"
    then have "i - fst p \<in> {- int r .. int r}" "j - snd p \<in> {- int r .. int r}" by auto
    moreover have "i = fst p + (i - fst p)" "j = snd p + (j - snd p)" by simp_all
    ultimately show "\<exists>di\<in>{- int r .. int r}. \<exists>dj\<in>{- int r .. int r}. i = fst p + di \<and> j = snd p + dj"
      by blast
  qed
  finally show "x \<in> set (visibleCells p r) \<longleftrightarrow>
      x \<in> {(i, j). \<bar>i - fst p\<bar> \<le> int r \<and> \<bar>j - snd p\<bar> \<le> int r}"
    using x by simp
qed

lemma length_visibleCells: "length (visibleCells p r) = (2 * r + 1)\<^sup>2"
proof -
  have l: "length [- int r .. int r] = 2 * r + 1" by (simp add: nat_add_distrib nat_mult_distrib)
  have "length (visibleCells p r) = (\<Sum>di\<leftarrow>[- int r .. int r]. length [- int r .. int r])"
    unfolding visibleCells_def length_concat by (simp add: comp_def del: length_upto)
  also have "\<dots> = (2 * r + 1) * (2 * r + 1)" by (simp only: sum_list_triv l) simp
  finally show ?thesis by (simp add: power2_eq_square)
qed

lemma distinct_visibleCells: "distinct (visibleCells p r)"
  unfolding visibleCells_def
  by (rule distinct_concat) (auto simp: distinct_map inj_on_def)

lemma card_visibleCells: "card (set (visibleCells p r)) = (2 * r + 1)\<^sup>2"
  by (simp add: distinct_card distinct_visibleCells length_visibleCells)

subsection \<open>The cell store only learns\<close>

lemma getCellToken_hit:
  "map_of (modifiedCells s) (cellKey i j) = Some t \<Longrightarrow> getCellToken i j s = (t, s)"
  by (simp add: getCellToken_def)

lemma getCellToken_store:
  "modifiedCells (snd (getCellToken i j s)) =
     AList.update (cellKey i j) (fst (getCellToken i j s)) (modifiedCells s)"
  by (cases "map_of (modifiedCells s) (cellKey i j)")
     (simp_all add: getCellToken_def randomFast_def Let_def update_triv split: prod.splits)

lemma getCellToken_fields:
  "heldToken (snd (getCellToken i j s)) = heldToken s"
  "playerPoints (snd (getCellToken i j s)) = playerPoints s"
  "PLAYER_START_LATLNG (snd (getCellToken i j s)) = PLAYER_START_LATLNG s"
  "playerLatLng (snd (getCellToken i j s)) = playerLatLng s"
  "overlayShown (snd (getCellToken i j s)) = overlayShown s"
  "movementMode (snd (getCellToken i j s)) = movementMode s"
  "localStorage (snd (getCellToken i j s)) = localStorage s"
  by (simp_all add: getCellToken_def randomFast_def Let_def split: option.splits prod.splits)

lemma getCellToken_keeps:
  assumes "map_of (modifiedCells s) k = Some t"
  shows "map_of (modifiedCells (snd (getCellToken i j s))) k = Some t"
proof (cases "k = cellKey i j")
  case True
  with assms show ?thesis by (simp add: getCellToken_hit)
next
  case False
  with assms show ?thesis by (simp add: getCellToken_store update_conv')
qed

lemma getCellToken_decides:
  "map_of (modifiedCells (snd (getCellToken i j s))) (cellKey i j) = Some (fst (getCellToken i j s))"
  by (simp add: getCellToken_store update_conv')

lemma renderCell_fields:
  "heldToken (renderCell i j s) = heldToken s"
  "playerPoints (renderCell i j s) = playerPoints s"
  "PLAYER_START_LATLNG (renderCell i j s) = PLAYER_START_LATLNG s"
  "playerLatLng (renderCell i j s) = playerLatLng s"
  "overlayShown (renderCell i j s) = overlayShown s"
  "movementMode (renderCell i j s) = movementMode s"
  "localStorage (renderCell i j s) = localStorage s"
  by (simp_all add: renderCell_def getCellToken_fields)

lemma renderCell_keeps:
  "map_of (modifiedCells s) k = Some t \<Longrightarrow> map_of (modifiedCells (renderCell i j s)) k = Some t"
  by (simp add: renderCell_def getCellToken_keeps)

lemma renderCell_decides: "map_of (modifiedCells (renderCell i j s)) (cellKey i j) \<noteq> None"
  by (simp add: renderCell_def getCellToken_decides)

lemma renderCell_hit:
  "map_of (modifiedCells s) (cellKey i j) = Some t \<Longrightarrow> renderCell i j s = s"
  by (simp add: renderCell_def getCellToken_hit)

lemma render_all_fields:
  "heldToken (fold (\<lambda>(i, j). renderCell i j) cs s) = heldToken s"
  "playerPoints (fold (\<lambda>(i, j). renderCell i j) cs s) = playerPoints s"
  "PLAYER_START_LATLNG (fold (\<lambda>(i, j). renderCell i j) cs s) = PLAYER_START_LATLNG s"
  "playerLatLng (fold (\<lambda>(i, j). renderCell i j) cs s) = playerLatLng s"
  "overlayShown (fold (\<lambda>(i, j). renderCell i j) cs s) = overlayShown s"
  "movementMode (fold (\<lambda>(i, j). renderCell i j) cs s) = movementMode s"
  "localStorage (fold (\<lambda>(i, j). renderCell i j) cs s) = localStorage s"
  by (induction cs arbitrary: s; simp add: renderCell_fields split: prod.splits)+

lemma render_all_keeps:
  "map_of (modifiedCells s) k = Some t \<Longrightarrow>
   map_of (modifiedCells (fold (\<lambda>(i, j). renderCell i j) cs s)) k = Some t"
  by (induction cs arbitrary: s) (auto simp: renderCell_keeps)

lemma render_all_decides:
  "(i, j) \<in> set cs \<Longrightarrow>
   map_of (modifiedCells (fold (\<lambda>(i, j). renderCell i j) cs s)) (cellKey i j) \<noteq> None"
proof (induction cs arbitrary: s)
  case Nil
  then show ?case by simp
next
  case (Cons c cs)
  show ?case
  proof (cases "c = (i, j)")
    case True
    obtain t where "map_of (modifiedCells (renderCell i j s)) (cellKey i j) = Some t"
      using renderCell_decides [of i j s] by auto
    then show ?thesis using True by (simp add: render_all_keeps)
  next
    case False
    with Cons.prems have "(i, j) \<in> set cs" by simp
    then show ?thesis using Cons.IH by simp
  qed
qed

lemma renderVisibleCells_fields:
  "heldToken (renderVisibleCells s) = heldToken s"
  "playerPoints (renderVisibleCells s) = playerPoints s"
  "PLAYER_START_LATLNG (renderVisibleCells s) = PLAYER_START_LATLNG s"
  "playerLatLng (renderVisibleCells s) = playerLatLng s"
  "overlayShown (renderVisibleCells s) = overlayShown s"
  "movementMode (renderVisibleCells s) = movementMode s"
  "localStorage (renderVisibleCells s) = localStorage s"
  by (simp_all add: renderVisibleCells_def Let_def render_all_fields)

lemma renderVisibleCells_keeps:
  "map_of (modifiedCells s) k = Some t \<Longrightarrow> map_of (modifiedCells (renderVisibleCells s)) k = Some t"
  by (simp add: renderVisibleCells_def Let_def render_all_keeps)

lemma saveGameState_fields:
  "heldToken (saveGameState s) = heldToken s"
  "playerPoints (saveGameState s) = playerPoints s"
  "PLAYER_START_LATLNG (saveGameState s) = PLAYER_START_LATLNG s"
  "playerLatLng (saveGameState s) = playerLatLng s"
  "overlayShown (saveGameState s) = overlayShown s"
  "movementMode (saveGameState s) = movementMode s"
  "modifiedCells (saveGameState s) = modifiedCells s"
  "rng (saveGameState s) = rng s"
  by (simp_all add: saveGameState_def)

lemma moveend_p2_keeps:
  "map_of (modifiedCells s) k = Some t \<Longrightarrow> map_of (modifiedCells (moveend_p2 c s)) k = Some t"
  by (simp add: moveend_p2_def renderVisibleCells_keeps)

lemma moveend_p1_keeps:
  "map_of (modifiedCells s) k = Some t \<Longrightarrow> map_of (modifiedCells (moveend_p1 c s)) k = Some t"
  by (simp add: moveend_p1_def renderVisibleCells_keeps saveGameState_fields)

lemma watchPosition_p1_keeps:
  "map_of (modifiedCells s) k = Some t \<Longrightarrow> map_of (modifiedCells (watchPosition_p1 c s)) k = Some t"
  by (simp add: watchPosition_p1_def renderVisibleCells_keeps saveGameState_fields)

subsection \<open>The window over \<^verbatim>\<open>cellMap\<close> keeps the cells inside and drops the others\<close>

lemma map_of_filter_keys:
  "map_of (filter (\<lambda>(k, c). k \<in> D) m) k = (if k \<in> D then map_of m k else None)"
  by (induction m) auto

lemma keys_of_map_of: "keys_of m = dom (map_of m)"
  by (simp add: keys_of_def dom_map_of_conv_image_fst)

lemma renderCell_main_fields:
  "heldToken (renderCell_main i j s) = heldToken s"
  "playerPoints (renderCell_main i j s) = playerPoints s"
  "PLAYER_START_LATLNG (renderCell_main i j s) = PLAYER_START_LATLNG s"
  "playerLatLng (renderCell_main i j s) = playerLatLng s"
  "overlayShown (renderCell_main i j s) = overlayShown s"
  by (simp_all add: renderCell_main_def ephemeralRandom_def Let_def split: prod.splits)

lemma renderCell_main_other:
  "k \<noteq> cellKey i j \<Longrightarrow> map_of (cellMap (renderCell_main i j s)) k = map_of (cellMap s) k"
  by (simp add: renderCell_main_def ephemeralRandom_def Let_def update_conv' split: prod.splits)

lemma renderCell_main_decides:
  "map_of (cellMap (renderCell_main i j s)) (cellKey i j) \<noteq> None"
  by (simp add: renderCell_main_def ephemeralRandom_def Let_def update_conv' split: prod.splits)

lemma render_missing_fields:
  "heldToken (fold render_missing cs s) = heldToken s"
  "playerPoints (fold render_missing cs s) = playerPoints s"
  "PLAYER_START_LATLNG (fold render_missing cs s) = PLAYER_START_LATLNG s"
  "playerLatLng (fold render_missing cs s) = playerLatLng s"
  "overlayShown (fold render_missing cs s) = overlayShown s"
  by (induction cs arbitrary: s; simp add: render_missing_def renderCell_main_fields split: prod.splits)+

lemma render_missing_keeps:
  "map_of (cellMap s) k = Some v \<Longrightarrow> map_of (cellMap (fold render_missing cs s)) k = Some v"
proof (induction cs arbitrary: s)
  case Nil
  then show ?case by simp
next
  case (Cons c cs)
  obtain i j where c: "c = (i, j)" by (cases c)
  have "map_of (cellMap (render_missing c s)) k = Some v"
    using Cons.prems c
    by (cases "k = cellKey i j") (auto simp: render_missing_def renderCell_main_other)
  then show ?case using Cons.IH by simp
qed

lemma render_missing_decides:
  "(i, j) \<in> set cs \<Longrightarrow> map_of (cellMap (fold render_missing cs s)) (cellKey i j) \<noteq> None"
proof (induction cs arbitrary: s)
  case Nil
  then show ?case by simp
next
  case (Cons c cs)
  show ?case
  proof (cases "c = (i, j)")
    case True
    have "map_of (cellMap (render_missing c s)) (cellKey i j) \<noteq> None"
      using True renderCell_main_decides [of i j s] by (auto simp: render_missing_def)
    then obtain v where "map_of (cellMap (render_missing c s)) (cellKey i j) = Some v" by auto
    then show ?thesis by (simp add: render_missing_keeps)
  next
    case False
    with Cons.prems have "(i, j) \<in> set cs" by simp
    then show ?thesis using Cons.IH by simp
  qed
qed

lemma renderVisibleCells_main_alt:
  "renderVisibleCells_main s =
     (let s1 = fold render_missing
                 (visibleCells (latLngToCell s (lat (playerLatLng s)) (lng (playerLatLng s))) RENDER_RADIUS) s
      in s1\<lparr>cellMap := filter (\<lambda>(k, c). k \<in> window_keys s) (cellMap s1)\<rparr>)"
  by (simp add: renderVisibleCells_main_def render_missing_def window_keys_def Let_def)

lemma renderVisibleCells_main_fields:
  "heldToken (renderVisibleCells_main s) = heldToken s"
  "playerPoints (renderVisibleCells_main s) = playerPoints s"
  "PLAYER_START_LATLNG (renderVisibleCells_main s) = PLAYER_START_LATLNG s"
  "playerLatLng (renderVisibleCells_main s) = playerLatLng s"
  "overlayShown (renderVisibleCells_main s) = overlayShown s"
  by (simp_all add: renderVisibleCells_main_alt Let_def render_missing_fields)

lemma renderVisibleCells_main_outside:
  "k \<notin> window_keys s \<Longrightarrow> map_of (cellMap (renderVisibleCells_main s)) k = None"
  by (simp add: renderVisibleCells_main_alt Let_def map_of_filter_keys)

lemma renderVisibleCells_main_inside:
  "k \<in> window_keys s \<Longrightarrow> map_of (cellMap s) k = Some v \<Longrightarrow>
   map_of (cellMap (renderVisibleCells_main s)) k = Some v"
  by (simp add: renderVisibleCells_main_alt Let_def map_of_filter_keys render_missing_keeps)

lemma renderVisibleCells_main_keys:
  "keys_of (cellMap (renderVisibleCells_main s)) = window_keys s"
proof -
  have inside: "\<And>k. k \<in> window_keys s \<Longrightarrow> map_of (cellMap (renderVisibleCells_main s)) k \<noteq> None"
    using render_missing_decides [where s = s]
    by (simp add: renderVisibleCells_main_alt Let_def map_of_filter_keys) (auto simp: window_keys_def)
  show ?thesis
    unfolding keys_of_map_of
  proof (intro set_eqI iffI)
    fix k
    assume "k \<in> dom (map_of (cellMap (renderVisibleCells_main s)))"
    then have "map_of (cellMap (renderVisibleCells_main s)) k \<noteq> None" by (simp add: domIff)
    then show "k \<in> window_keys s"
      by (rule contrapos_np) (rule renderVisibleCells_main_outside)
  next
    fix k
    assume "k \<in> window_keys s"
    then show "k \<in> dom (map_of (cellMap (renderVisibleCells_main s)))"
      using inside [of k] by (simp add: domIff)
  qed
qed

lemma window_keys_iff:
  "cellKey i j \<in> window_keys s \<longleftrightarrow>
     (i, j) \<in> set (visibleCells (latLngToCell s (lat (playerLatLng s)) (lng (playerLatLng s))) RENDER_RADIUS)"
  by (auto simp: window_keys_def cellKey_inj)

lemma card_window_keys: "card (window_keys s) = (2 * RENDER_RADIUS + 1)\<^sup>2"
proof -
  have "inj_on (\<lambda>(i, j). cellKey i j) A" for A
    by (auto simp: inj_on_def cellKey_inj)
  then show ?thesis
    unfolding window_keys_def by (simp add: card_image card_visibleCells)
qed

lemma renderVisibleCells_decides: "window_keys s \<subseteq> keys_of (modifiedCells (renderVisibleCells s))"
proof
  fix k
  assume "k \<in> window_keys s"
  then obtain i j where k: "k = cellKey i j"
    and c: "(i, j) \<in> set (visibleCells (latLngToCell s (lat (playerLatLng s)) (lng (playerLatLng s)))
                               RENDER_RADIUS)"
    by (auto simp: window_keys_def)
  from render_all_decides [OF c, of s]
  have "map_of (modifiedCells (renderVisibleCells s)) k \<noteq> None"
    by (simp add: renderVisibleCells_def Let_def k)
  then show "k \<in> keys_of (modifiedCells (renderVisibleCells s))"
    by (simp add: keys_of_map_of domIff)
qed

subsection \<open>Scenarios without tokens\<close>

lemma draw_value_dry: "draw_value (Crypto 4294967295) = 1"
  by (simp add: draw_value_def)

lemma dry_unfold: "shd dry = Crypto 4294967295" "stl dry = dry"
  by (simp_all add: dry_def)

lemma renderCell_main_dry:
  "rng s = dry \<Longrightarrow>
   rng (renderCell_main i j s) = dry \<and>
   map_of (cellMap (renderCell_main i j s)) (cellKey i j) = Some None"
  by (simp add: renderCell_main_def ephemeralRandom_def Let_def dry_unfold draw_value_dry
      TOKEN_SPAWN_PROBABILITY_def update_conv')

lemma render_missing_dry:
  "rng s = dry \<Longrightarrow>
   rng (fold render_missing cs s) = dry \<and>
   (\<forall>k. map_of (cellMap (fold render_missing cs s)) k =
        (if map_of (cellMap s) k = None \<and> k \<in> (\<lambda>(i, j). cellKey i j) ` set cs
         then Some None else map_of (cellMap s) k))"
proof (induction cs arbitrary: s)
  case Nil
  then show ?case by simp
next
  case (Cons c cs)
  obtain i j where c: "c = (i, j)" by (cases c)
  define t where "t = render_missing (i, j) s"
  have r: "rng t = dry"
    using Cons.prems by (simp add: t_def render_missing_def renderCell_main_dry)
  have m: "map_of (cellMap t) k =
           (if map_of (cellMap s) k = None \<and> k = cellKey i j then Some None else map_of (cellMap s) k)" for k
    using Cons.prems
    by (cases "k = cellKey i j")
       (auto simp: t_def render_missing_def renderCell_main_dry renderCell_main_other)
  have f: "fold render_missing (c # cs) s = fold render_missing cs t"
    by (simp add: c t_def)
  from Cons.IH [OF r] have r': "rng (fold render_missing cs t) = dry"
    and m': "\<And>k. map_of (cellMap (fold render_missing cs t)) k =
        (if map_of (cellMap t) k = None \<and> k \<in> (\<lambda>(i, j). cellKey i j) ` set cs
         then Some None else map_of (cellMap t) k)"
    by simp_all
  show ?case
    unfolding f
  proof (intro conjI allI)
    show "rng (fold render_missing cs t) = dry" by (rule r')
  next
    fix k
    show "map_of (cellMap (fold render_missing cs t)) k =
        (if map_of (cellMap s) k = None \<and> k \<in> (\<lambda>(i, j). cellKey i j) ` set (c # cs)
         then Some None else map_of (cellMap s) k)"
      unfolding m' m by (auto simp: c)
  qed
qed

lemma renderVisibleCells_main_dry:
  assumes "rng s = dry"
  shows "rng (renderVisibleCells_main s) = dry"
    and "map_of (cellMap (renderVisibleCells_main s)) k =
         (if k \<in> window_keys s
          then (case map_of (cellMap s) k of None \<Rightarrow> Some None | Some v \<Rightarrow> Some v)
          else None)"
  using render_missing_dry [OF assms]
  by (auto simp: renderVisibleCells_main_alt Let_def map_of_filter_keys window_keys_def)

lemma window_keys_cong:
  "PLAYER_START_LATLNG s = PLAYER_START_LATLNG t \<Longrightarrow> playerLatLng s = playerLatLng t \<Longrightarrow>
   window_keys s = window_keys t"
  by (simp add: window_keys_def latLngToCell_def)

lemma home_cell:
  "PLAYER_START_LATLNG s = playerLatLng s \<Longrightarrow>
   latLngToCell s (lat (playerLatLng s)) (lng (playerLatLng s)) = (0, 0)"
  by (simp add: latLngToCell_def)

lemma far_north_cell:
  "PLAYER_START_LATLNG s = FALLBACK_LATLNG \<Longrightarrow>
   latLngToCell s (lat far_north) (lng far_north) = (20, 0)"
  by (simp add: latLngToCell_def far_north_def TILE_DEGREES_def)

lemma origin_in_home_window:
  "PLAYER_START_LATLNG s = playerLatLng s \<Longrightarrow> cellKey 0 0 \<in> window_keys s"
  by (simp add: window_keys_iff home_cell set_visibleCells)

lemma origin_not_in_far_window:
  "PLAYER_START_LATLNG s = FALLBACK_LATLNG \<Longrightarrow> playerLatLng s = far_north \<Longrightarrow>
   cellKey 0 0 \<notin> window_keys s"
  by (simp add: window_keys_iff far_north_cell set_visibleCells RENDER_RADIUS_def)

lemma startup_main_dry:
  "rng (startup_main None dry) = dry"
  "PLAYER_START_LATLNG (startup_main None dry) = FALLBACK_LATLNG"
  "playerLatLng (startup_main None dry) = FALLBACK_LATLNG"
  "heldToken (startup_main None dry) = None"
  "playerPoints (startup_main None dry) = 0"
  "map_of (cellMap (startup_main None dry)) (cellKey 0 0) = Some None"
  by (simp_all add: startup_main_def position_or_fallback_def globals_grid_def
      renderVisibleCells_main_dry renderVisibleCells_main_fields origin_in_home_window)

lemma canInteract_home:
  "PLAYER_START_LATLNG s = playerLatLng s \<Longrightarrow> canInteract s 0 0"
  by (simp add: canInteract_def home_cell INTERACT_RANGE_def Let_def)

lemma far_window_keys:
  "PLAYER_START_LATLNG s = FALLBACK_LATLNG \<Longrightarrow> cellKey 0 0 \<notin> window_keys (s\<lparr>playerLatLng := far_north\<rparr>)"
  by (simp add: origin_not_in_far_window)

lemma keys_of_update: "keys_of (AList.update k v m) = insert k (keys_of m)"
  by (simp add: keys_of_map_of update_conv')

lemma getCellToken_keys:
  "keys_of (modifiedCells (snd (getCellToken i j s))) = insert (cellKey i j) (keys_of (modifiedCells s))"
  by (simp add: getCellToken_store keys_of_update)

lemma renderCell_keys:
  "keys_of (modifiedCells (renderCell i j s)) = insert (cellKey i j) (keys_of (modifiedCells s))"
  by (simp add: renderCell_def getCellToken_keys)

lemma render_all_keys:
  "keys_of (modifiedCells (fold (\<lambda>(i, j). renderCell i j) cs s)) =
     (\<lambda>(i, j). cellKey i j) ` set cs \<union> keys_of (modifiedCells s)"
  by (induction cs arbitrary: s) (auto simp: renderCell_keys)

lemma renderVisibleCells_keys:
  "keys_of (modifiedCells (renderVisibleCells s)) = window_keys s \<union> keys_of (modifiedCells s)"
  by (simp add: renderVisibleCells_def Let_def render_all_keys window_keys_def)

lemma saveCell_keys:
  "keys_of (modifiedCells (saveCell_p2 i j v s)) = insert (cellKey i j) (keys_of (modifiedCells s))"
  "keys_of (modifiedCells (saveCell_p1 i j v s)) = insert (cellKey i j) (keys_of (modifiedCells s))"
  by (simp_all add: saveCell_p2_def saveCell_p1_def saveGameState_def keys_of_update)

lemma checkVictory_store [simp]: "modifiedCells (checkVictory s) = modifiedCells s"
  by (simp add: checkVictory_def split: option.splits)

lemma click_p2_keys:
  "keys_of (modifiedCells (click_p2 i j s)) =
     (if canInteract s i j then insert (cellKey i j) (keys_of (modifiedCells s))
      else keys_of (modifiedCells s))"
proof (cases "canInteract s i j")
  case True
  obtain tok s1 where g: "getCellToken i j s = (tok, s1)" by (cases "getCellToken i j s")
  have k1: "keys_of (modifiedCells s1) = insert (cellKey i j) (keys_of (modifiedCells s))"
    using getCellToken_keys [of i j s] by (simp add: g)
  show ?thesis
    using True
    by (auto simp: click_p2_def g k1 Let_def renderCell_keys saveCell_keys split: option.splits)
next
  case False
  then show ?thesis by (simp add: click_p2_def)
qed

lemma click_p1_keys:
  "keys_of (modifiedCells (click_p1 i j s)) =
     (if canInteract s i j then insert (cellKey i j) (keys_of (modifiedCells s))
      else keys_of (modifiedCells s))"
proof (cases "canInteract s i j")
  case True
  obtain tok s1 where g: "getCellToken i j s = (tok, s1)" by (cases "getCellToken i j s")
  have k1: "keys_of (modifiedCells s1) = insert (cellKey i j) (keys_of (modifiedCells s))"
    using getCellToken_keys [of i j s] by (simp add: g)
  show ?thesis
    using True
    by (auto simp: click_p1_def g k1 Let_def renderCell_keys saveCell_keys saveGameState_fields
        split: option.splits)
next
  case False
  then show ?thesis by (simp add: click_p1_def)
qed

lemma step_p2_keys:
  "\<forall>ev. e \<noteq> Restart ev \<Longrightarrow> keys_of (modifiedCells s) \<subseteq> keys_of (modifiedCells (step_p2 e s))"
  by (cases e) (auto simp: moveend_p2_def renderVisibleCells_keys click_p2_keys)

lemma step_p1_keys:
  "\<forall>ev. e \<noteq> Restart ev \<Longrightarrow> keys_of (modifiedCells s) \<subseteq> keys_of (modifiedCells (step_p1 e s))"
  by (cases e)
     (auto simp: moveend_p1_def watchPosition_p1_def renderVisibleCells_keys click_p1_keys
       saveGameState_fields toggleMovementMode_def setMovementMode_def Let_def)

subsection \<open>The transitions of a click\<close>

lemmas click_store_defs =
  click_p2_def click_p1_def getCellToken_def renderCell_def saveCell_p2_def saveCell_p1_def
  saveGameState_def checkVictory_def update_conv' observe_store_def Let_def

lemmas click_grid_defs =
  click_main_def click_p0_def checkVictory_def update_conv' observe_grid_def Let_def

lemma click_p2_pick_up:
  "canInteract s i j \<Longrightarrow> observe_store s i j = (None, Some (Some v), p) \<Longrightarrow>
   observe_store (click_p2 i j s) i j = (Some v, Some None, p + 1)"
  by (simp add: click_store_defs)

lemma click_p2_place:
  "canInteract s i j \<Longrightarrow> observe_store s i j = (Some v, Some None, p) \<Longrightarrow>
   observe_store (click_p2 i j s) i j = (None, Some (Some v), p)"
  by (simp add: click_store_defs)

lemma click_p2_craft:
  "canInteract s i j \<Longrightarrow> observe_store s i j = (Some v, Some (Some v), p) \<Longrightarrow>
   observe_store (click_p2 i j s) i j = (Some (2 * v), Some None, p + 2)"
  by (simp add: click_store_defs)

lemma click_p1_pick_up:
  "canInteract s i j \<Longrightarrow> observe_store s i j = (None, Some (Some v), p) \<Longrightarrow>
   observe_store (click_p1 i j s) i j = (Some v, Some None, p + 1)"
  by (simp add: click_store_defs)

lemma click_p1_place:
  "canInteract s i j \<Longrightarrow> observe_store s i j = (Some v, Some None, p) \<Longrightarrow>
   observe_store (click_p1 i j s) i j = (None, Some (Some v), p)"
  by (simp add: click_store_defs)

lemma click_p1_craft:
  "canInteract s i j \<Longrightarrow> observe_store s i j = (Some v, Some (Some v), p) \<Longrightarrow>
   observe_store (click_p1 i j s) i j = (Some (2 * v), Some None, p + 2)"
  by (simp add: click_store_defs)

lemma click_main_pick_up:
  "canInteract s i j \<Longrightarrow> observe_grid s i j = (None, Some (Some v), p) \<Longrightarrow>
   observe_grid (click_main i j s) i j = (Some v, Some None, p + 1)"
  by (simp add: click_grid_defs)

lemma click_main_place:
  "canInteract s i j \<Longrightarrow> observe_grid s i j = (Some v, Some None, p) \<Longrightarrow>
   observe_grid (click_main i j s) i j = (None, Some (Some v), p)"
  by (simp add: click_grid_defs)

lemma click_main_craft:
  "canInteract s i j \<Longrightarrow> observe_grid s i j = (Some v, Some (Some v), p) \<Longrightarrow>
   observe_grid (click_main i j s) i j = (Some (2 * v), Some None, p + 2)"
  by (simp add: click_grid_defs)

lemma click_p0_pick_up:
  "canInteract_p0 i j \<Longrightarrow> observe_grid s i j = (None, Some (Some v), p) \<Longrightarrow>
   observe_grid (click_p0 i j s) i j = (Some v, Some None, p + 1)"
  by (simp add: click_grid_defs)

lemma click_p0_place:
  "canInteract_p0 i j \<Longrightarrow> observe_grid s i j = (Some v, Some None, p) \<Longrightarrow>
   observe_grid (click_p0 i j s) i j = (None, Some (Some v), p)"
  by (simp add: click_grid_defs)

lemma click_p0_craft:
  "canInteract_p0 i j \<Longrightarrow> observe_grid s i j = (Some v, Some (Some v), p) \<Longrightarrow>
   observe_grid (click_p0 i j s) i j = (Some (2 * v), Some None, p + 2)"
  by (simp add: click_grid_defs)

lemma store_transitions:
  "canInteract s i j \<longrightarrow>
      (observe_store s i j = (None, Some (Some v), p) \<longrightarrow>
         observe_store (click_p2 i j s) i j = (Some v, Some None, p + 1) \<and>
         observe_store (click_p1 i j s) i j = (Some v, Some None, p + 1)) \<and>
      (observe_store s i j = (Some v, Some None, p) \<longrightarrow>
         observe_store (click_p2 i j s) i j = (None, Some (Some v), p) \<and>
         observe_store (click_p1 i j s) i j = (None, Some (Some v), p)) \<and>
      (observe_store s i j = (Some v, Some (Some v), p) \<longrightarrow>
         observe_store (click_p2 i j s) i j = (Some (2 * v), Some None, p + 2) \<and>
         observe_store (click_p1 i j s) i j = (Some (2 * v), Some None, p + 2))"
  by (intro conjI impI)
     (erule (1) click_p2_pick_up click_p1_pick_up click_p2_place click_p1_place
        click_p2_craft click_p1_craft)+

lemma main_transitions:
  "canInteract t i j \<longrightarrow>
      (observe_grid t i j = (None, Some (Some v), p) \<longrightarrow>
         observe_grid (click_main i j t) i j = (Some v, Some None, p + 1)) \<and>
      (observe_grid t i j = (Some v, Some None, p) \<longrightarrow>
         observe_grid (click_main i j t) i j = (None, Some (Some v), p)) \<and>
      (observe_grid t i j = (Some v, Some (Some v), p) \<longrightarrow>
         observe_grid (click_main i j t) i j = (Some (2 * v), Some None, p + 2))"
  by (intro conjI impI) (erule (1) click_main_pick_up click_main_place click_main_craft)+

lemma p0_transitions:
  "canInteract_p0 i j \<longrightarrow>
      (observe_grid t i j = (None, Some (Some v), p) \<longrightarrow>
         observe_grid (click_p0 i j t) i j = (Some v, Some None, p + 1)) \<and>
      (observe_grid t i j = (Some v, Some None, p) \<longrightarrow>
         observe_grid (click_p0 i j t) i j = (None, Some (Some v), p)) \<and>
      (observe_grid t i j = (Some v, Some (Some v), p) \<longrightarrow>
         observe_grid (click_p0 i j t) i j = (Some (2 * v), Some None, p + 2))"
  by (intro conjI impI) (erule (1) click_p0_pick_up click_p0_place click_p0_craft)+

lemma with_in_range:
  "canInteract (store_with h c) 0 0" "canInteract (grid_with h c) 0 0" "canInteract_p0 0 0"
  by (simp_all add: canInteract_home store_with_def grid_with_def globals_store_def
      globals_grid_def canInteract_p0_def INTERACT_RANGE_def)

lemma with_observe:
  "observe_store (store_with h c) 0 0 = (h, Some c, 0)"
  "observe_grid (grid_with h c) 0 0 = (h, Some c, 0)"
  by (simp_all add: observe_store_def observe_grid_def store_with_def grid_with_def
      globals_store_def globals_grid_def)

lemma click_p0_rejected:
  "\<not> canInteract_p0 i j \<or>
     (heldToken t = Some v \<and> map_of (cellMap t) (cellKey i j) = Some (Some w) \<and> v \<noteq> w) \<Longrightarrow>
   click_p0 i j t = t"
  by (auto simp: click_p0_def Let_def split: option.splits)

lemma click_main_rejected:
  "\<not> canInteract t i j \<or>
     (heldToken t = Some v \<and> map_of (cellMap t) (cellKey i j) = Some (Some w) \<and> v \<noteq> w) \<Longrightarrow>
   click_main i j t = t"
  by (auto simp: click_main_def Let_def split: option.splits)

lemma click_store_out_of_range:
  "\<not> canInteract s i j \<Longrightarrow> click_p2 i j s = s \<and> click_p1 i j s = s"
  by (simp add: click_p2_def click_p1_def)

lemma click_store_mismatch:
  assumes "heldToken s = Some v" and "map_of (modifiedCells s) (cellKey i j) = Some (Some w)"
    and "v \<noteq> w"
  shows "heldToken (click_p2 i j s) = heldToken s \<and> modifiedCells (click_p2 i j s) = modifiedCells s \<and>
      playerPoints (click_p2 i j s) = playerPoints s \<and>
      heldToken (click_p1 i j s) = heldToken s \<and> modifiedCells (click_p1 i j s) = modifiedCells s \<and>
      playerPoints (click_p1 i j s) = playerPoints s"
proof (cases "canInteract s i j")
  case True
  have g: "getCellToken i j s = (Some w, s)" by (simp add: getCellToken_hit assms(2))
  have r: "renderCell i j u = u" if "modifiedCells u = modifiedCells s" for u
    by (rule renderCell_hit [where t = "Some w"]) (simp add: that assms(2))
  have "click_p2 i j s = checkVictory s"
    using True assms by (simp add: click_p2_def g r)
  moreover have "click_p1 i j s = saveGameState (checkVictory s)"
    using True assms by (simp add: click_p1_def g r saveGameState_fields)
  ultimately show ?thesis
    by (simp add: saveGameState_fields) (simp add: checkVictory_def split: option.splits)
next
  case False
  then show ?thesis by (simp add: click_store_out_of_range)
qed

subsection \<open>Scenarios where every cell spawns a 32\<close>

lemma rich_unfold:
  "shd rich = Crypto 0" "shd (stl rich) = Crypto 3435973837" "stl (stl rich) = rich"
  by (simp_all add: rich_def)

lemma draw_value_rich:
  "draw_value (Crypto 0) = 0" "\<lfloor>draw_value (Crypto 3435973837) * 5\<rfloor> = 4"
  by (simp_all add: draw_value_def)

lemma getCellToken_rich:
  assumes "rng s = rich" and "map_of (modifiedCells s) (cellKey i j) = None"
  shows "fst (getCellToken i j s) = Some 32"
    and "rng (snd (getCellToken i j s)) = rich"
  using assms
  by (simp_all add: getCellToken_def randomFast_def Let_def rich_unfold draw_value_rich
      TOKEN_SPAWN_PROBABILITY_def)

lemma getCellToken_dry:
  assumes "rng s = dry" and "map_of (modifiedCells s) (cellKey i j) = None"
  shows "fst (getCellToken i j s) = None"
    and "rng (snd (getCellToken i j s)) = dry"
  using assms
  by (simp_all add: getCellToken_def randomFast_def Let_def dry_unfold draw_value_dry
      TOKEN_SPAWN_PROBABILITY_def)

lemma renderCell_main_rich:
  "rng s = rich \<Longrightarrow>
   rng (renderCell_main i j s) = rich \<and>
   map_of (cellMap (renderCell_main i j s)) (cellKey i j) = Some (Some 32)"
  by (simp add: renderCell_main_def ephemeralRandom_def Let_def rich_unfold draw_value_rich
      TOKEN_SPAWN_PROBABILITY_def update_conv')

lemma render_all_rich:
  "rng s = rich \<Longrightarrow>
   rng (fold (\<lambda>(i, j). renderCell i j) cs s) = rich \<and>
   (\<forall>k. map_of (modifiedCells (fold (\<lambda>(i, j). renderCell i j) cs s)) k =
        (if map_of (modifiedCells s) k = None \<and> k \<in> (\<lambda>(i, j). cellKey i j) ` set cs
         then Some (Some 32) else map_of (modifiedCells s) k))"
proof (induction cs arbitrary: s)
  case Nil
  then show ?case by simp
next
  case (Cons c cs)
  obtain i j where c: "c = (i, j)" by (cases c)
  define t where "t = renderCell i j s"
  have r: "rng t = rich"
  proof (cases "map_of (modifiedCells s) (cellKey i j)")
    case None
    with Cons.prems show ?thesis by (simp add: t_def renderCell_def getCellToken_rich)
  next
    case (Some v)
    with Cons.prems show ?thesis by (simp add: t_def renderCell_hit)
  qed
  have m: "map_of (modifiedCells t) k =
           (if map_of (modifiedCells s) k = None \<and> k = cellKey i j then Some (Some 32)
            else map_of (modifiedCells s) k)" for k
  proof (cases "map_of (modifiedCells s) (cellKey i j)")
    case None
    with Cons.prems have "fst (getCellToken i j s) = Some 32" by (simp add: getCellToken_rich)
    then show ?thesis
      using None by (simp add: t_def renderCell_def getCellToken_store update_conv')
  next
    case (Some v)
    then show ?thesis by (auto simp: t_def renderCell_hit)
  qed
  have f: "fold (\<lambda>(i, j). renderCell i j) (c # cs) s = fold (\<lambda>(i, j). renderCell i j) cs t"
    by (simp add: c t_def)
  from Cons.IH [OF r] have r': "rng (fold (\<lambda>(i, j). renderCell i j) cs t) = rich"
    and m': "\<And>k. map_of (modifiedCells (fold (\<lambda>(i, j). renderCell i j) cs t)) k =
        (if map_of (modifiedCells t) k = None \<and> k \<in> (\<lambda>(i, j). cellKey i j) ` set cs
         then Some (Some 32) else map_of (modifiedCells t) k)"
    by simp_all
  show ?case
    unfolding f
  proof (intro conjI allI)
    show "rng (fold (\<lambda>(i, j). renderCell i j) cs t) = rich" by (rule r')
  next
    fix k
    show "map_of (modifiedCells (fold (\<lambda>(i, j). renderCell i j) cs t)) k =
        (if map_of (modifiedCells s) k = None \<and> k \<in> (\<lambda>(i, j). cellKey i j) ` set (c # cs)
         then Some (Some 32) else map_of (modifiedCells s) k)"
      unfolding m' m by (auto simp: c)
  qed
qed

lemma renderVisibleCells_rich:
  assumes "rng s = rich"
  shows "rng (renderVisibleCells s) = rich"
    and "map_of (modifiedCells (renderVisibleCells s)) k =
         (if map_of (modifiedCells s) k = None \<and> k \<in> window_keys s then Some (Some 32)
          else map_of (modifiedCells s) k)"
  using render_all_rich [OF assms]
  by (simp_all add: renderVisibleCells_def Let_def window_keys_def)

lemma loadGameState_nothing_stored:
  "localStorage s = None \<Longrightarrow> loadGameState s = Some (False, s)"
  by (simp add: loadGameState_def)

lemma startup_p1_fresh:
  "startup_p1 geo None None g =
     Some (saveGameState (renderVisibleCells (setMovementMode Gps False (renderVisibleCells
        ((globals_store g None)\<lparr>PLAYER_START_LATLNG := position_or_fallback geo,
                                  playerLatLng := position_or_fallback geo\<rparr>)))))"
  by (simp add: startup_p1_def loadGameState_nothing_stored globals_store_def Let_def
      renderVisibleCells_fields)

lemma startup_p1_rich:
  "rng (the (startup_p1 None None None rich)) = rich"
  "heldToken (the (startup_p1 None None None rich)) = None"
  "playerPoints (the (startup_p1 None None None rich)) = 0"
  "overlayShown (the (startup_p1 None None None rich)) = False"
  "PLAYER_START_LATLNG (the (startup_p1 None None None rich)) = FALLBACK_LATLNG"
  "playerLatLng (the (startup_p1 None None None rich)) = FALLBACK_LATLNG"
  "map_of (modifiedCells (the (startup_p1 None None None rich))) (cellKey 0 0) = Some (Some 32)"
  by (simp_all add: startup_p1_fresh saveGameState_fields renderVisibleCells_fields
      renderVisibleCells_rich setMovementMode_def position_or_fallback_def globals_store_def
      origin_in_home_window)

lemma click_p1_pick_up_victory:
  assumes "canInteract s i j" and "heldToken s = None"
    and "map_of (modifiedCells s) (cellKey i j) = Some (Some v)" and "TARGET_MAX_TOKEN \<le> v"
  shows "overlayShown (click_p1 i j s) \<and> heldToken (click_p1 i j s) = Some v \<and>
         playerPoints (click_p1 i j s) = playerPoints s + 1"
  using assms by (simp add: click_store_defs)

subsection \<open>Restart\<close>

lemma checkVictory_fields:
  "heldToken (checkVictory s) = heldToken s"
  "playerPoints (checkVictory s) = playerPoints s"
  "PLAYER_START_LATLNG (checkVictory s) = PLAYER_START_LATLNG s"
  "playerLatLng (checkVictory s) = playerLatLng s"
  "rng (checkVictory s) = rng s"
  by (simp_all add: checkVictory_def split: option.splits)

lemma moveend_p2_fields:
  "heldToken (moveend_p2 c s) = heldToken s"
  "playerPoints (moveend_p2 c s) = playerPoints s"
  "PLAYER_START_LATLNG (moveend_p2 c s) = PLAYER_START_LATLNG s"
  "overlayShown (moveend_p2 c s) = overlayShown s"
  "playerLatLng (moveend_p2 c s) = c"
  by (simp_all add: moveend_p2_def renderVisibleCells_fields)

lemma moveend_p1_fields:
  "heldToken (moveend_p1 c s) = heldToken s"
  "playerPoints (moveend_p1 c s) = playerPoints s"
  "PLAYER_START_LATLNG (moveend_p1 c s) = PLAYER_START_LATLNG s"
  "overlayShown (moveend_p1 c s) = overlayShown s"
  "movementMode (moveend_p1 c s) = movementMode s"
  by (simp_all add: moveend_p1_def renderVisibleCells_fields saveGameState_fields)

lemma restartGame_p1_fields:
  "playerPoints (restartGame_p1 ev s) = 0"
  "heldToken (restartGame_p1 ev s) = None"
  "overlayShown (restartGame_p1 ev s) = False"
  "PLAYER_START_LATLNG (restartGame_p1 ev s) = playerLatLng s"
  "playerLatLng (restartGame_p1 ev s) = playerLatLng s"
  by (cases ev; simp add: restartGame_p1_def Let_def saveGameState_fields renderVisibleCells_fields
      moveend_p1_fields)+

lemma restartGame_p2_fields:
  "playerPoints (restartGame_p2 ev s) = 0"
  "heldToken (restartGame_p2 ev s) = None"
  "overlayShown (restartGame_p2 ev s) = False"
  "PLAYER_START_LATLNG (restartGame_p2 ev s) = PLAYER_START_LATLNG s"
  "playerLatLng (restartGame_p2 ev s) = PLAYER_START_LATLNG s"
  by (cases ev; simp add: restartGame_p2_def Let_def renderVisibleCells_fields moveend_p2_fields)+

lemma restartGame_forgets_store:
  "restartGame_p1 ev (s\<lparr>modifiedCells := m\<rparr>) = restartGame_p1 ev s"
  "restartGame_p2 ev (s\<lparr>modifiedCells := m\<rparr>) = restartGame_p2 ev s"
  by (simp_all add: restartGame_p1_def restartGame_p2_def)

lemma window_keys_renderVisibleCells: "window_keys (renderVisibleCells s) = window_keys s"
  by (rule window_keys_cong) (simp_all add: renderVisibleCells_fields)

lemma window_keys_saveGameState: "window_keys (saveGameState s) = window_keys s"
  by (rule window_keys_cong) (simp_all add: saveGameState_fields)

lemma keys_of_Nil: "keys_of [] = {}"
  by (simp add: keys_of_def)

lemma restartGame_keys:
  "keys_of (modifiedCells (restartGame_p1 None s)) = window_keys (restartGame_p1 None s)"
  "keys_of (modifiedCells (restartGame_p2 None s)) = window_keys (restartGame_p2 None s)"
  by (simp_all add: restartGame_p1_def restartGame_p2_def Let_def saveGameState_fields
      renderVisibleCells_keys window_keys_renderVisibleCells window_keys_saveGameState keys_of_Nil)

lemma far_north_not_home: "far_north \<noteq> FALLBACK_LATLNG"
proof
  assume "far_north = FALLBACK_LATLNG"
  then have "lat far_north = lat FALLBACK_LATLNG" by simp
  then show False by (simp add: far_north_def TILE_DEGREES_def)
qed

lemma keys_nonempty: "k \<in> keys_of m \<Longrightarrow> m \<noteq> []"
  by (auto simp: keys_of_def)

subsection \<open>Saving and restoring\<close>

lemma load_cells_encoded:
  "load_cells (map (\<lambda>(k, v). JArr [JStr k, (case v of None \<Rightarrow> JNull | Some n \<Rightarrow> JNum n)]) xs) m =
     Some (fold (\<lambda>(k, v). AList.update k v) xs m)"
proof (induction xs arbitrary: m)
  case Nil
  then show ?case by simp
next
  case (Cons x xs)
  obtain k v where x: "x = (k, v)" by (cases x)
  show ?case by (cases v) (simp_all add: x Cons.IH)
qed

lemma update_new_key: "k \<notin> fst ` set m \<Longrightarrow> AList.update k v m = m @ [(k, v)]"
  by (induction m) auto

lemma fold_update_distinct:
  "distinct (map fst (m @ xs)) \<Longrightarrow> fold (\<lambda>(k, v). AList.update k v) xs m = m @ xs"
proof (induction xs arbitrary: m)
  case Nil
  then show ?case by simp
next
  case (Cons x xs)
  obtain k v where x: "x = (k, v)" by (cases x)
  from Cons.prems have new: "k \<notin> fst ` set m" by (auto simp: x)
  from Cons.prems have "distinct (map fst ((m @ [(k, v)]) @ xs))" by (simp add: x)
  from Cons.IH [OF this] show ?case by (simp add: x update_new_key [OF new])
qed

lemma load_cells_roundtrip:
  "distinct (map fst xs) \<Longrightarrow>
   load_cells (map (\<lambda>(k, v). JArr [JStr k, (case v of None \<Rightarrow> JNull | Some n \<Rightarrow> JNum n)]) xs) [] =
     Some xs"
  using fold_update_distinct [of "[]" xs] by (simp add: load_cells_encoded)

lemma loadGameState_serialized:
  assumes "distinct (map fst (modifiedCells s))"
  shows "loadGameState (t\<lparr>localStorage := Some (Parses (serializeState s))\<rparr>) =
     Some (True, t\<lparr>localStorage := Some (Parses (serializeState s)),
                    PLAYER_START_LATLNG := PLAYER_START_LATLNG s,
                    playerLatLng := playerLatLng s,
                    playerPoints := playerPoints s,
                    heldToken := heldToken s,
                    modifiedCells := modifiedCells s,
                    movementMode := movementMode s\<rparr>)"
proof -
  let ?obj = "serializeState s"
  have obj: "?obj \<noteq> JNull" by (simp add: serializeState_def)
  have start: "load_latLng ?obj ''PLAYER_START_LATLNG'' x = Some (PLAYER_START_LATLNG s)" for x
    by (simp add: load_latLng_def serializeState_def property_def truthy_def latLng_of_def)
  have pos: "load_latLng ?obj ''playerLatLng'' x = Some (playerLatLng s)" for x
    by (simp add: load_latLng_def serializeState_def property_def truthy_def latLng_of_def)
  have points: "load_points ?obj = playerPoints s"
    by (simp add: load_points_def serializeState_def property_def)
  have held: "load_held ?obj = heldToken s"
    by (cases "heldToken s") (simp_all add: load_held_def serializeState_def property_def)
  have store: "load_store ?obj = Some (modifiedCells s)"
    by (simp add: load_store_def serializeState_def property_def load_cells_roundtrip [OF assms])
  have mode: "load_mode ?obj = movementMode s"
    by (cases "movementMode s") (simp_all add: load_mode_def serializeState_def property_def)
  show ?thesis
    by (simp add: loadGameState_def load_parsed_def obj start pos points held store mode Let_def)
qed

lemma getCellToken_distinct:
  "distinct (map fst (modifiedCells s)) \<Longrightarrow>
   distinct (map fst (modifiedCells (snd (getCellToken i j s))))"
  by (simp add: getCellToken_store distinct_update)

lemma render_all_distinct:
  "distinct (map fst (modifiedCells s)) \<Longrightarrow>
   distinct (map fst (modifiedCells (fold (\<lambda>(i, j). renderCell i j) cs s)))"
  by (induction cs arbitrary: s) (auto simp: renderCell_def getCellToken_distinct)

lemma renderVisibleCells_distinct:
  "distinct (map fst (modifiedCells s)) \<Longrightarrow>
   distinct (map fst (modifiedCells (renderVisibleCells s)))"
  by (simp add: renderVisibleCells_def Let_def render_all_distinct)

lemma click_p1_distinct:
  assumes "distinct (map fst (modifiedCells s))"
  shows "distinct (map fst (modifiedCells (click_p1 i j s)))"
proof (cases "canInteract s i j")
  case False
  with assms show ?thesis by (simp add: click_p1_def)
next
  case True
  obtain tok s1 where g: "getCellToken i j s = (tok, s1)" by (cases "getCellToken i j s")
  have d1: "distinct (map fst (modifiedCells s1))"
    using getCellToken_distinct [OF assms, of i j] by (simp add: g)
  show ?thesis
    using True d1
    by (auto simp: click_p1_def g Let_def renderCell_def getCellToken_distinct saveCell_p1_def
        saveGameState_fields distinct_update split: option.splits)
qed

lemma load_cells_distinct:
  "load_cells es m = Some m' \<Longrightarrow> distinct (map fst m) \<Longrightarrow> distinct (map fst m')"
  by (induction es m rule: load_cells.induct) (simp_all add: distinct_update)

lemma load_store_distinct: "load_store obj = Some m \<Longrightarrow> distinct (map fst m)"
  by (auto simp: load_store_def split: option.splits json.splits dest: load_cells_distinct)

lemma load_parsed_store:
  assumes "load_parsed obj s = Some (b, s')"
  shows "load_store obj = Some (modifiedCells s')"
proof (cases "load_latLng obj ''PLAYER_START_LATLNG'' (PLAYER_START_LATLNG s)")
  case None
  with assms show ?thesis by (simp add: load_parsed_def)
next
  case start: (Some start)
  show ?thesis
  proof (cases "load_latLng obj ''playerLatLng'' start")
    case None
    with assms start show ?thesis by (simp add: load_parsed_def)
  next
    case pos: (Some p)
    show ?thesis
    proof (cases "load_store obj")
      case None
      with assms start pos show ?thesis by (simp add: load_parsed_def)
    next
      case (Some m)
      with assms start pos show ?thesis by (auto simp: load_parsed_def)
    qed
  qed
qed

lemma loadGameState_distinct:
  assumes "loadGameState s = Some (b, s')" and "distinct (map fst (modifiedCells s))"
  shows "distinct (map fst (modifiedCells s'))"
proof -
  from assms(1) have "s' = s \<or> (\<exists>obj. load_parsed obj s = Some (b, s'))"
    by (auto simp: loadGameState_def split: option.splits item.splits if_splits)
  then show ?thesis
  proof
    assume "s' = s"
    with assms(2) show ?thesis by simp
  next
    assume "\<exists>obj. load_parsed obj s = Some (b, s')"
    then obtain obj where "load_parsed obj s = Some (b, s')" by blast
    then have "load_store obj = Some (modifiedCells s')" by (rule load_parsed_store)
    then show ?thesis by (rule load_store_distinct)
  qed
qed

lemma startup_p1_distinct:
  assumes "startup_p1 geo ev st g = Some s"
  shows "distinct (map fst (modifiedCells s))"
proof -
  from assms obtain b s1 where l: "loadGameState (globals_store g st) = Some (b, s1)"
    by (auto simp: startup_p1_def split: option.splits)
  have d1: "distinct (map fst (modifiedCells s1))"
    by (rule loadGameState_distinct [OF l]) (simp add: globals_store_def)
  from assms l show ?thesis
    by (cases ev)
       (auto simp: startup_p1_def Let_def saveGameState_fields setMovementMode_def
          moveend_p1_def intro!: renderVisibleCells_distinct d1)
qed

lemma step_p1_distinct:
  assumes "distinct (map fst (modifiedCells s))"
  shows "distinct (map fst (modifiedCells (step_p1 e s)))"
proof (cases e)
  case (Restart ev)
  then show ?thesis
    by (cases ev)
       (auto simp: restartGame_p1_def Let_def saveGameState_fields moveend_p1_def
          intro!: renderVisibleCells_distinct)
qed (auto simp: assms moveend_p1_def watchPosition_p1_def saveGameState_fields
      toggleMovementMode_def setMovementMode_def Let_def click_p1_distinct
      intro!: renderVisibleCells_distinct)

lemma reachable_p1_distinct: "reachable_p1 s \<Longrightarrow> distinct (map fst (modifiedCells s))"
  by (induction rule: reachable_p1.induct)
     (simp_all add: startup_p1_distinct step_p1_distinct)

subsection \<open>Token values\<close>

lemma doubling_generated:
  assumes "0 \<le> r" and "0 \<le> K"
  shows "doubling_token (Some (2 powi (1 + \<lfloor>r * K\<rfloor>)))"
proof -
  have "0 \<le> r * K" using assms by simp
  then have f: "0 \<le> \<lfloor>r * K\<rfloor>" by simp
  then have "(2::real) powi (1 + \<lfloor>r * K\<rfloor>) = 2 ^ nat (1 + \<lfloor>r * K\<rfloor>)"
    by (simp add: power_int_def)
  moreover have "1 \<le> nat (1 + \<lfloor>r * K\<rfloor>)" using f by linarith
  ultimately show ?thesis unfolding doubling_token_def by auto
qed

lemma draw_value_nonneg: "0 \<le> draw_value d"
  by (cases d) (simp_all add: draw_value_def del: of_nat_unat)

lemma doubling_double: "doubling_token (Some h) \<Longrightarrow> doubling_token (Some (h * 2))"
proof -
  assume "doubling_token (Some h)"
  then obtain k :: nat where "1 \<le> k" and "h = 2 ^ k" by (auto simp: doubling_token_def)
  then have "1 \<le> Suc k \<and> h * 2 = 2 ^ Suc k" by simp
  then show ?thesis unfolding doubling_token_def by (simp only: option.case) blast
qed

lemma doubling_None: "doubling_token None"
  by (simp add: doubling_token_def)

lemma values_ok_update:
  "\<forall>x \<in> set m. doubling_token (snd x) \<Longrightarrow> doubling_token v \<Longrightarrow>
   \<forall>x \<in> set (AList.update k v m). doubling_token (snd x)"
  by (induction m) auto

lemma getCellToken_token_ok:
  assumes "\<forall>x \<in> set (modifiedCells s). doubling_token (snd x)"
  shows "doubling_token (fst (getCellToken i j s))"
proof (cases "map_of (modifiedCells s) (cellKey i j)")
  case None
  then show ?thesis
    by (simp add: getCellToken_def randomFast_def Let_def doubling_generated doubling_None
        draw_value_nonneg split: prod.splits)
next
  case (Some t)
  then have "(cellKey i j, t) \<in> set (modifiedCells s)" by (rule map_of_SomeD)
  with assms have "doubling_token t" by force
  with Some show ?thesis by (simp add: getCellToken_hit)
qed

lemma getCellToken_tokens_ok:
  assumes "tokens_ok_store s"
  shows "tokens_ok_store (snd (getCellToken i j s))"
proof -
  from assms have v: "\<forall>x \<in> set (modifiedCells s). doubling_token (snd x)"
    and h: "doubling_token (heldToken s)"
    by (simp_all add: tokens_ok_store_def)
  have "\<forall>x \<in> set (AList.update (cellKey i j) (fst (getCellToken i j s)) (modifiedCells s)).
          doubling_token (snd x)"
    by (rule values_ok_update [OF v getCellToken_token_ok [OF v]])
  with h show ?thesis
    unfolding tokens_ok_store_def by (simp only: getCellToken_fields getCellToken_store simp_thms)
qed

lemma renderCell_tokens_ok: "tokens_ok_store s \<Longrightarrow> tokens_ok_store (renderCell i j s)"
  by (simp add: renderCell_def getCellToken_tokens_ok)

lemma render_all_tokens_ok:
  "tokens_ok_store s \<Longrightarrow> tokens_ok_store (fold (\<lambda>(i, j). renderCell i j) cs s)"
  by (induction cs arbitrary: s) (auto simp: renderCell_tokens_ok)

lemma renderVisibleCells_tokens_ok:
  "tokens_ok_store s \<Longrightarrow> tokens_ok_store (renderVisibleCells s)"
  by (simp add: renderVisibleCells_def Let_def render_all_tokens_ok)

lemma tokens_ok_store_cong:
  "heldToken t = heldToken s \<Longrightarrow> modifiedCells t = modifiedCells s \<Longrightarrow>
   tokens_ok_store t = tokens_ok_store s"
  by (simp add: tokens_ok_store_def)

lemma click_p2_tokens_ok:
  assumes "tokens_ok_store s"
  shows "tokens_ok_store (click_p2 i j s)"
proof (cases "canInteract s i j")
  case False
  with assms show ?thesis by (simp add: click_p2_def)
next
  case True
  obtain tok s1 where g: "getCellToken i j s = (tok, s1)" by (cases "getCellToken i j s")
  have ok1: "tokens_ok_store s1" using getCellToken_tokens_ok [OF assms, of i j] by (simp add: g)
  have tok: "doubling_token tok"
    using getCellToken_token_ok [of s i j] assms by (simp add: g tokens_ok_store_def)
  have v1: "\<forall>x \<in> set (modifiedCells s1). doubling_token (snd x)"
    and h1: "doubling_token (heldToken s1)"
    using ok1 by (simp_all add: tokens_ok_store_def)
  define s2 where "s2 = (case heldToken s1 of
                    None \<Rightarrow>
                      (case tok of
                         None \<Rightarrow> s1
                       | Some v \<Rightarrow>
                           (let sa = saveCell_p2 i j None (s1\<lparr>heldToken := Some v\<rparr>)
                            in sa\<lparr>playerPoints := playerPoints sa + 1\<rparr>))
                  | Some h \<Rightarrow>
                      (case tok of
                         None \<Rightarrow> (saveCell_p2 i j (Some h) s1)\<lparr>heldToken := None\<rparr>
                       | Some v \<Rightarrow>
                           if v = h
                           then (let merged = h * 2; sa = saveCell_p2 i j None s1
                                 in sa\<lparr>heldToken := Some merged,
                                       playerPoints := playerPoints sa + 2\<rparr>)
                           else s1))"
  have upd: "\<forall>x \<in> set (AList.update (cellKey i j) c (modifiedCells s1)). doubling_token (snd x)"
    if "doubling_token c" for c
    by (rule values_ok_update [OF v1 that])
  have ok2: "tokens_ok_store s2"
  proof (cases "heldToken s1")
    case None
    show ?thesis
    proof (cases tok)
      case n: None
      with None ok1 show ?thesis by (simp add: s2_def)
    next
      case (Some v)
      with None tok upd [OF doubling_None] show ?thesis
        by (simp add: s2_def tokens_ok_store_def saveCell_p2_def Let_def)
    qed
  next
    case (Some h)
    with h1 have dh: "doubling_token (Some h)" by simp
    show ?thesis
    proof (cases tok)
      case None
      with Some upd [OF dh] show ?thesis
        by (simp add: s2_def tokens_ok_store_def saveCell_p2_def doubling_None)
    next
      case v: (Some v)
      show ?thesis
      proof (cases "v = h")
        case True
        with Some v upd [OF doubling_None] doubling_double [OF dh] show ?thesis
          by (simp add: s2_def tokens_ok_store_def saveCell_p2_def Let_def)
      next
        case False
        with Some v ok1 show ?thesis by (simp add: s2_def)
      qed
    qed
  qed
  have "tokens_ok_store (checkVictory s2)"
    using ok2 by (simp add: tokens_ok_store_def checkVictory_fields)
  then have "tokens_ok_store (renderCell i j (checkVictory s2))" by (rule renderCell_tokens_ok)
  moreover have "click_p2 i j s = renderCell i j (checkVictory s2)"
    using True by (simp add: click_p2_def g s2_def)
  ultimately show ?thesis by simp
qed

lemma tokens_ok_store_update_other:
  "tokens_ok_store (s\<lparr>playerLatLng := c\<rparr>) = tokens_ok_store s"
  "tokens_ok_store (s\<lparr>PLAYER_START_LATLNG := c\<rparr>) = tokens_ok_store s"
  by (simp_all add: tokens_ok_store_def)

lemma moveend_p2_tokens_ok: "tokens_ok_store s \<Longrightarrow> tokens_ok_store (moveend_p2 c s)"
  by (simp add: moveend_p2_def renderVisibleCells_tokens_ok tokens_ok_store_update_other)

lemma tokens_ok_store_cleared:
  "tokens_ok_store (s\<lparr>overlayShown := False, playerPoints := 0, heldToken := None,
                      modifiedCells := []\<rparr>)"
  by (simp add: tokens_ok_store_def doubling_None)

lemma restartGame_p2_tokens_ok: "tokens_ok_store (restartGame_p2 ev s)"
proof -
  let ?s1 = "s\<lparr>overlayShown := False, playerPoints := 0, heldToken := None, modifiedCells := []\<rparr>"
  have a: "tokens_ok_store (case ev of None \<Rightarrow> ?s1 | Some c \<Rightarrow> moveend_p2 c ?s1)"
    by (cases ev) (simp_all add: tokens_ok_store_cleared moveend_p2_tokens_ok)
  show ?thesis
    unfolding restartGame_p2_def Let_def
    by (intro renderVisibleCells_tokens_ok) (simp add: tokens_ok_store_update_other a)
qed

lemma startup_p2_tokens_ok: "tokens_ok_store (startup_p2 geo g)"
  unfolding startup_p2_def Let_def
  by (intro renderVisibleCells_tokens_ok)
     (simp add: tokens_ok_store_def globals_store_def doubling_None)

lemma step_p2_tokens_ok: "tokens_ok_store s \<Longrightarrow> tokens_ok_store (step_p2 e s)"
  by (cases e) (simp_all add: moveend_p2_tokens_ok click_p2_tokens_ok restartGame_p2_tokens_ok)

lemma reachable_p2_tokens_ok: "reachable_p2 s \<Longrightarrow> tokens_ok_store s"
  by (induction rule: reachable_p2.induct) (simp_all add: startup_p2_tokens_ok step_p2_tokens_ok)

lemma renderCell_p0_tokens_ok:
  fixes luck :: "string \<Rightarrow> number"
  assumes "\<forall>seed. 0 \<le> luck seed" and "tokens_ok_grid s"
  shows "tokens_ok_grid (renderCell_p0 luck i j s)"
proof -
  from assms(2) have v: "\<forall>x \<in> set (cellMap s). doubling_token (snd x)"
    and h: "doubling_token (heldToken s)"
    by (simp_all add: tokens_ok_grid_def)
  define val :: "number option" where "val = (if luck (cellKey i j @ '',token'') < TOKEN_SPAWN_PROBABILITY
                           then Some (2 powi (1 + \<lfloor>luck (cellKey i j @ '',value'') * 3\<rfloor>))
                           else None)"
  have "doubling_token val"
    using assms(1) by (simp add: val_def doubling_generated doubling_None)
  then have "\<forall>x \<in> set (AList.update (cellKey i j) val (cellMap s)). doubling_token (snd x)"
    by (rule values_ok_update [OF v])
  with h show ?thesis by (simp add: renderCell_p0_def Let_def tokens_ok_grid_def val_def)
qed

lemma renderGrid_p0_tokens_ok:
  fixes luck :: "string \<Rightarrow> number"
  assumes "\<forall>seed. 0 \<le> luck seed" and "doubling_token (heldToken s)"
  shows "tokens_ok_grid (renderGrid_p0 luck s)"
proof -
  have f: "tokens_ok_grid t \<Longrightarrow> tokens_ok_grid (fold (\<lambda>(i, j). renderCell_p0 luck i j) cs t)" for cs t
    by (induction cs arbitrary: t) (auto simp: renderCell_p0_tokens_ok [OF assms(1)])
  show ?thesis
    unfolding renderGrid_p0_def by (rule f) (simp add: tokens_ok_grid_def assms(2))
qed

lemma click_p0_tokens_ok:
  assumes "tokens_ok_grid s"
  shows "tokens_ok_grid (click_p0 i j s)"
proof (cases "map_of (cellMap s) (cellKey i j)")
  case None
  with assms show ?thesis by (simp add: click_p0_def)
next
  case (Some val)
  from assms have v: "\<forall>x \<in> set (cellMap s). doubling_token (snd x)"
    and h: "doubling_token (heldToken s)"
    by (simp_all add: tokens_ok_grid_def)
  from Some have "(cellKey i j, val) \<in> set (cellMap s)" by (rule map_of_SomeD)
  with v have dv: "doubling_token val" by force
  have upd: "\<forall>x \<in> set (AList.update (cellKey i j) c (cellMap s)). doubling_token (snd x)"
    if "doubling_token c" for c
    by (rule values_ok_update [OF v that])
  show ?thesis
  proof (cases "canInteract_p0 i j")
    case False
    with assms Some show ?thesis by (simp add: click_p0_def)
  next
    case True
    show ?thesis
    proof (cases "heldToken s")
      case None
      show ?thesis
      proof (cases val)
        case n: None
        with None Some True assms show ?thesis by (simp add: click_p0_def)
      next
        case sv: (Some x)
        with None Some True dv upd [OF doubling_None] show ?thesis
          by (simp add: click_p0_def tokens_ok_grid_def)
      qed
    next
      case hh: (Some hv)
      with h have dh: "doubling_token (Some hv)" by simp
      show ?thesis
      proof (cases val)
        case None
        with hh Some True upd [OF dh] show ?thesis
          by (simp add: click_p0_def tokens_ok_grid_def doubling_None)
      next
        case sv: (Some x)
        show ?thesis
        proof (cases "x = hv")
          case True
          with hh sv Some \<open>canInteract_p0 i j\<close> upd [OF doubling_None] doubling_double [OF dh]
          show ?thesis by (simp add: click_p0_def tokens_ok_grid_def)
        next
          case False
          with hh sv Some \<open>canInteract_p0 i j\<close> assms show ?thesis by (simp add: click_p0_def)
        qed
      qed
    qed
  qed
qed

lemma step_p0_tokens_ok: "tokens_ok_grid s \<Longrightarrow> tokens_ok_grid (step_p0 e s)"
  by (cases e) (simp_all add: click_p0_tokens_ok)

lemma startup_p0_tokens_ok: "\<forall>seed. 0 \<le> luck seed \<Longrightarrow> tokens_ok_grid (startup_p0 luck geo g)"
  unfolding startup_p0_def Let_def
  by (rule renderGrid_p0_tokens_ok) (simp_all add: globals_grid_def doubling_None)

lemma reachable_p0_tokens_ok:
  "reachable_p0 luck s \<Longrightarrow> \<forall>seed. 0 \<le> luck seed \<Longrightarrow> tokens_ok_grid s"
  by (induction rule: reachable_p0.induct) (simp_all add: startup_p0_tokens_ok step_p0_tokens_ok)

lemma doubling_8: "doubling_token (Some 8)"
  unfolding doubling_token_def by (simp only: option.case) (rule exI [of _ 3], simp)

lemma with_tokens_ok:
  "tokens_ok_store (store_with (Some 8) (Some 8))" "tokens_ok_grid (grid_with (Some 8) (Some 8))"
  by (simp_all add: tokens_ok_store_def tokens_ok_grid_def store_with_def grid_with_def
      globals_store_def globals_grid_def doubling_8)

subsection \<open>Events that leave a cell alone\<close>

lemma click_p2_other:
  assumes "k \<noteq> cellKey i j"
  shows "map_of (modifiedCells (click_p2 i j s)) k = map_of (modifiedCells s) k"
proof (cases "canInteract s i j")
  case False
  then show ?thesis by (simp add: click_p2_def)
next
  case True
  obtain tok s1 where g: "getCellToken i j s = (tok, s1)" by (cases "getCellToken i j s")
  have st: "map_of (modifiedCells s1) k = map_of (modifiedCells s) k"
    using getCellToken_store [of i j s] assms by (simp add: g update_conv')
  have rc: "map_of (modifiedCells (renderCell i j u)) k = map_of (modifiedCells u) k" for u
    using assms by (simp add: renderCell_def getCellToken_store update_conv')
  show ?thesis
    using True assms st
    by (simp add: click_p2_def g rc saveCell_p2_def Let_def update_conv' split: option.splits)
qed

lemma click_p1_other:
  assumes "k \<noteq> cellKey i j"
  shows "map_of (modifiedCells (click_p1 i j s)) k = map_of (modifiedCells s) k"
proof (cases "canInteract s i j")
  case False
  then show ?thesis by (simp add: click_p1_def)
next
  case True
  obtain tok s1 where g: "getCellToken i j s = (tok, s1)" by (cases "getCellToken i j s")
  have st: "map_of (modifiedCells s1) k = map_of (modifiedCells s) k"
    using getCellToken_store [of i j s] assms by (simp add: g update_conv')
  have rc: "map_of (modifiedCells (renderCell i j u)) k = map_of (modifiedCells u) k" for u
    using assms by (simp add: renderCell_def getCellToken_store update_conv')
  show ?thesis
    using True assms st
    by (simp add: click_p1_def g rc saveCell_p1_def saveGameState_fields Let_def update_conv'
        split: option.splits)
qed

lemma step_p2_keeps:
  assumes "leaves_cell i j e" and "map_of (modifiedCells s) (cellKey i j) = Some t"
  shows "map_of (modifiedCells (step_p2 e s)) (cellKey i j) = Some t"
proof (cases e)
  case (Click i' j')
  with assms(1) have "cellKey i j \<noteq> cellKey i' j'" by (auto simp: leaves_cell_def cellKey_inj)
  with assms(2) Click show ?thesis by (simp add: click_p2_other)
qed (use assms in \<open>simp_all add: leaves_cell_def moveend_p2_keeps\<close>)

lemma step_p1_keeps:
  assumes "leaves_cell i j e" and "map_of (modifiedCells s) (cellKey i j) = Some t"
  shows "map_of (modifiedCells (step_p1 e s)) (cellKey i j) = Some t"
proof (cases e)
  case (Click i' j')
  with assms(1) have "cellKey i j \<noteq> cellKey i' j'" by (auto simp: leaves_cell_def cellKey_inj)
  with assms(2) Click show ?thesis by (simp add: click_p1_other)
qed (use assms in \<open>simp_all add: leaves_cell_def moveend_p1_keeps watchPosition_p1_keeps
      toggleMovementMode_def setMovementMode_def saveGameState_fields Let_def\<close>)

lemma events_p2_keep:
  "list_all (leaves_cell i j) es \<Longrightarrow> map_of (modifiedCells s) (cellKey i j) = Some t \<Longrightarrow>
   map_of (modifiedCells (fold step_p2 es s)) (cellKey i j) = Some t"
  by (induction es arbitrary: s) (simp_all add: step_p2_keeps)

lemma events_p1_keep:
  "list_all (leaves_cell i j) es \<Longrightarrow> map_of (modifiedCells s) (cellKey i j) = Some t \<Longrightarrow>
   map_of (modifiedCells (fold step_p1 es s)) (cellKey i j) = Some t"
  by (induction es arbitrary: s) (simp_all add: step_p1_keeps)

lemma saveGameState_tokens_ok: "tokens_ok_store (saveGameState s) = tokens_ok_store s"
  by (rule tokens_ok_store_cong) (simp_all add: saveGameState_fields)

lemma click_p1_tokens_ok:
  assumes "tokens_ok_store s"
  shows "tokens_ok_store (click_p1 i j s)"
proof (cases "canInteract s i j")
  case False
  with assms show ?thesis by (simp add: click_p1_def)
next
  case True
  obtain tok s1 where g: "getCellToken i j s = (tok, s1)" by (cases "getCellToken i j s")
  have ok1: "tokens_ok_store s1" using getCellToken_tokens_ok [OF assms, of i j] by (simp add: g)
  have tok: "doubling_token tok"
    using getCellToken_token_ok [of s i j] assms by (simp add: g tokens_ok_store_def)
  have v1: "\<forall>x \<in> set (modifiedCells s1). doubling_token (snd x)"
    and h1: "doubling_token (heldToken s1)"
    using ok1 by (simp_all add: tokens_ok_store_def)
  define s2 where "s2 = (case heldToken s1 of
                    None \<Rightarrow>
                      (case tok of
                         None \<Rightarrow> s1
                       | Some v \<Rightarrow>
                           (let sa = saveCell_p1 i j None (s1\<lparr>heldToken := Some v\<rparr>)
                            in sa\<lparr>playerPoints := playerPoints sa + 1\<rparr>))
                  | Some h \<Rightarrow>
                      (case tok of
                         None \<Rightarrow> (saveCell_p1 i j (Some h) s1)\<lparr>heldToken := None\<rparr>
                       | Some v \<Rightarrow>
                           if v = h
                           then (let merged = h * 2; sa = saveCell_p1 i j None s1
                                 in sa\<lparr>heldToken := Some merged,
                                       playerPoints := playerPoints sa + 2\<rparr>)
                           else s1))"
  have upd: "\<forall>x \<in> set (AList.update (cellKey i j) c (modifiedCells s1)). doubling_token (snd x)"
    if "doubling_token c" for c
    by (rule values_ok_update [OF v1 that])
  have ok2: "tokens_ok_store s2"
  proof (cases "heldToken s1")
    case None
    show ?thesis
    proof (cases tok)
      case n: None
      with None ok1 show ?thesis by (simp add: s2_def)
    next
      case (Some v)
      with None tok upd [OF doubling_None] show ?thesis
        by (simp add: s2_def tokens_ok_store_def saveCell_p1_def saveGameState_def Let_def)
    qed
  next
    case (Some h)
    with h1 have dh: "doubling_token (Some h)" by simp
    show ?thesis
    proof (cases tok)
      case None
      with Some upd [OF dh] show ?thesis
        by (simp add: s2_def tokens_ok_store_def saveCell_p1_def saveGameState_def doubling_None)
    next
      case v: (Some v)
      show ?thesis
      proof (cases "v = h")
        case True
        with Some v upd [OF doubling_None] doubling_double [OF dh] show ?thesis
          by (simp add: s2_def tokens_ok_store_def saveCell_p1_def saveGameState_def Let_def)
      next
        case False
        with Some v ok1 show ?thesis by (simp add: s2_def)
      qed
    qed
  qed
  have "tokens_ok_store (saveGameState (checkVictory s2))"
    using ok2 by (simp add: saveGameState_tokens_ok) (simp add: tokens_ok_store_def checkVictory_fields)
  then have "tokens_ok_store (renderCell i j (saveGameState (checkVictory s2)))"
    by (rule renderCell_tokens_ok)
  moreover have "click_p1 i j s = renderCell i j (saveGameState (checkVictory s2))"
    using True by (simp add: click_p1_def g s2_def)
  ultimately show ?thesis by simp
qed

lemma moveend_p1_tokens_ok: "tokens_ok_store s \<Longrightarrow> tokens_ok_store (moveend_p1 c s)"
  by (simp add: moveend_p1_def saveGameState_tokens_ok renderVisibleCells_tokens_ok
      tokens_ok_store_update_other)

lemma watchPosition_p1_tokens_ok: "tokens_ok_store s \<Longrightarrow> tokens_ok_store (watchPosition_p1 c s)"
  by (simp add: watchPosition_p1_def saveGameState_tokens_ok renderVisibleCells_tokens_ok
      tokens_ok_store_update_other)

lemma setMovementMode_tokens_ok: "tokens_ok_store (setMovementMode m b s) = tokens_ok_store s"
  by (rule tokens_ok_store_cong) (simp_all add: setMovementMode_def Let_def saveGameState_fields)

lemma restartGame_p1_tokens_ok: "tokens_ok_store (restartGame_p1 ev s)"
proof -
  let ?s1 = "s\<lparr>overlayShown := False, playerPoints := 0, heldToken := None, modifiedCells := []\<rparr>"
  let ?s2 = "?s1\<lparr>PLAYER_START_LATLNG := playerLatLng ?s1\<rparr>"
  have "tokens_ok_store ?s2"
    by (simp only: tokens_ok_store_update_other tokens_ok_store_cleared)
  then have a: "tokens_ok_store (case ev of None \<Rightarrow> ?s2 | Some c \<Rightarrow> moveend_p1 c ?s2)"
    by (cases ev) (simp_all only: option.case moveend_p1_tokens_ok)
  show ?thesis
    unfolding restartGame_p1_def Let_def saveGameState_tokens_ok
    by (intro renderVisibleCells_tokens_ok) (simp only: tokens_ok_store_update_other a)
qed

lemma startup_p1_fresh_tokens_ok:
  assumes "startup_p1 geo ev None g = Some s"
  shows "tokens_ok_store s"
proof -
  let ?o = "position_or_fallback geo"
  let ?s2 = "(globals_store g None)\<lparr>PLAYER_START_LATLNG := ?o, playerLatLng := ?o\<rparr>"
  let ?s4 = "setMovementMode (movementMode (renderVisibleCells ?s2)) False (renderVisibleCells ?s2)"
  have "tokens_ok_store ?s2" by (simp add: tokens_ok_store_def globals_store_def doubling_None)
  then have 4: "tokens_ok_store ?s4"
    by (simp add: setMovementMode_tokens_ok renderVisibleCells_tokens_ok)
  then have 5: "tokens_ok_store (case ev of None \<Rightarrow> ?s4 | Some c \<Rightarrow> moveend_p1 c ?s4)"
    by (cases ev) (simp_all only: option.case moveend_p1_tokens_ok)
  have ls: "localStorage (globals_store g None) = None" by (simp add: globals_store_def)
  have "s = saveGameState (renderVisibleCells (case ev of None \<Rightarrow> ?s4 | Some c \<Rightarrow> moveend_p1 c ?s4))"
    using assms by (auto simp: startup_p1_def loadGameState_nothing_stored [OF ls] Let_def)
  with 5 show ?thesis by (simp add: saveGameState_tokens_ok renderVisibleCells_tokens_ok)
qed

lemma step_p1_tokens_ok: "tokens_ok_store s \<Longrightarrow> tokens_ok_store (step_p1 e s)"
  by (cases e)
     (simp_all add: moveend_p1_tokens_ok watchPosition_p1_tokens_ok click_p1_tokens_ok
        restartGame_p1_tokens_ok toggleMovementMode_def setMovementMode_tokens_ok Let_def)

lemma reachable_fresh_p1_tokens_ok: "reachable_fresh_p1 s \<Longrightarrow> tokens_ok_store s"
  by (induction rule: reachable_fresh_p1.induct)
     (simp_all add: startup_p1_fresh_tokens_ok step_p1_tokens_ok)

lemma renderCell_main_tokens_ok:
  assumes "tokens_ok_grid s"
  shows "tokens_ok_grid (renderCell_main i j s)"
proof -
  from assms have v: "\<forall>x \<in> set (cellMap s). doubling_token (snd x)"
    and h: "doubling_token (heldToken s)"
    by (simp_all add: tokens_ok_grid_def)
  define val :: "number option" where
    "val = (if draw_value (shd (rng s)) < TOKEN_SPAWN_PROBABILITY
            then Some (2 powi (1 + \<lfloor>draw_value (shd (stl (rng s))) * 5\<rfloor>)) else None)"
  have "doubling_token val"
    by (simp add: val_def doubling_generated doubling_None draw_value_nonneg)
  then have u: "\<forall>x \<in> set (AList.update (cellKey i j) val (cellMap s)). doubling_token (snd x)"
    by (rule values_ok_update [OF v])
  have "cellMap (renderCell_main i j s) = AList.update (cellKey i j) val (cellMap s)"
    by (simp add: renderCell_main_def ephemeralRandom_def Let_def val_def)
  with u h show ?thesis by (simp add: tokens_ok_grid_def renderCell_main_fields)
qed

lemma render_missing_tokens_ok:
  "tokens_ok_grid s \<Longrightarrow> tokens_ok_grid (fold render_missing cs s)"
  by (induction cs arbitrary: s) (auto simp: render_missing_def renderCell_main_tokens_ok)

lemma renderVisibleCells_main_tokens_ok:
  assumes "tokens_ok_grid s"
  shows "tokens_ok_grid (renderVisibleCells_main s)"
proof -
  define s1 where "s1 = fold render_missing
      (visibleCells (latLngToCell s (lat (playerLatLng s)) (lng (playerLatLng s))) RENDER_RADIUS) s"
  have "tokens_ok_grid s1" unfolding s1_def by (rule render_missing_tokens_ok [OF assms])
  then have h: "doubling_token (heldToken s1)"
    and v: "\<forall>x \<in> set (cellMap s1). doubling_token (snd x)"
    by (simp_all add: tokens_ok_grid_def)
  from v have "\<forall>x \<in> set (filter (\<lambda>(k, c). k \<in> window_keys s) (cellMap s1)). doubling_token (snd x)"
    by simp
  with h show ?thesis
    by (simp add: renderVisibleCells_main_alt Let_def tokens_ok_grid_def s1_def [symmetric])
qed

lemma tokens_ok_grid_update_other:
  "tokens_ok_grid (s\<lparr>playerLatLng := c\<rparr>) = tokens_ok_grid s"
  by (simp add: tokens_ok_grid_def)

lemma moveend_main_tokens_ok: "tokens_ok_grid s \<Longrightarrow> tokens_ok_grid (moveend_main c s)"
  by (simp add: moveend_main_def renderVisibleCells_main_tokens_ok tokens_ok_grid_update_other)

lemma restartGame_main_tokens_ok: "tokens_ok_grid (restartGame_main ev s)"
proof -
  let ?s1 = "s\<lparr>overlayShown := False, playerPoints := 0, heldToken := None, cellMap := []\<rparr>"
  let ?s2 = "?s1\<lparr>playerLatLng := PLAYER_START_LATLNG ?s1\<rparr>"
  have "tokens_ok_grid ?s1" by (simp add: tokens_ok_grid_def doubling_None)
  then have "tokens_ok_grid ?s2" by (simp only: tokens_ok_grid_update_other)
  then have a: "tokens_ok_grid (case ev of None \<Rightarrow> ?s2 | Some c \<Rightarrow> moveend_main c ?s2)"
    by (cases ev) (simp_all only: option.case moveend_main_tokens_ok)
  show ?thesis
    unfolding restartGame_main_def Let_def by (rule renderVisibleCells_main_tokens_ok [OF a])
qed

lemma checkVictory_tokens_ok_grid: "tokens_ok_grid (checkVictory s) = tokens_ok_grid s"
  by (simp add: tokens_ok_grid_def checkVictory_def split: option.splits)

lemma click_main_tokens_ok:
  assumes "tokens_ok_grid s"
  shows "tokens_ok_grid (click_main i j s)"
proof (cases "map_of (cellMap s) (cellKey i j)")
  case None
  with assms show ?thesis by (simp add: click_main_def)
next
  case (Some val)
  from assms have v: "\<forall>x \<in> set (cellMap s). doubling_token (snd x)"
    and h: "doubling_token (heldToken s)"
    by (simp_all add: tokens_ok_grid_def)
  from Some have "(cellKey i j, val) \<in> set (cellMap s)" by (rule map_of_SomeD)
  with v have dv: "doubling_token val" by force
  have upd: "\<forall>x \<in> set (AList.update (cellKey i j) c (cellMap s)). doubling_token (snd x)"
    if "doubling_token c" for c
    by (rule values_ok_update [OF v that])
  show ?thesis
  proof (cases "canInteract s i j")
    case False
    with assms Some show ?thesis by (simp add: click_main_def)
  next
    case True
    show ?thesis
    proof (cases "heldToken s")
      case None
      show ?thesis
      proof (cases val)
        case n: None
        with None Some True assms show ?thesis by (simp add: click_main_def)
      next
        case sv: (Some x)
        with None Some True dv upd [OF doubling_None] show ?thesis
          by (simp add: click_main_def checkVictory_tokens_ok_grid) (simp add: tokens_ok_grid_def)
      qed
    next
      case hh: (Some hv)
      with h have dh: "doubling_token (Some hv)" by simp
      show ?thesis
      proof (cases val)
        case None
        with hh Some True upd [OF dh] show ?thesis
          by (simp add: click_main_def tokens_ok_grid_def doubling_None)
      next
        case sv: (Some x)
        show ?thesis
        proof (cases "x = hv")
          case True
          with hh sv Some \<open>canInteract s i j\<close> upd [OF doubling_None] doubling_double [OF dh]
          show ?thesis
            by (simp add: click_main_def checkVictory_tokens_ok_grid) (simp add: tokens_ok_grid_def)
        next
          case False
          with hh sv Some \<open>canInteract s i j\<close> assms show ?thesis by (simp add: click_main_def)
        qed
      qed
    qed
  qed
qed

lemma startup_main_tokens_ok: "tokens_ok_grid (startup_main geo g)"
  unfolding startup_main_def Let_def
  by (rule renderVisibleCells_main_tokens_ok)
     (simp add: tokens_ok_grid_def globals_grid_def doubling_None)

lemma step_main_tokens_ok: "tokens_ok_grid s \<Longrightarrow> tokens_ok_grid (step_main e s)"
  by (cases e)
     (simp_all add: moveend_main_tokens_ok click_main_tokens_ok restartGame_main_tokens_ok)

lemma reachable_main_tokens_ok: "reachable_main s \<Longrightarrow> tokens_ok_grid s"
  by (induction rule: reachable_main.induct)
     (simp_all add: startup_main_tokens_ok step_main_tokens_ok)

section \<open>The claims\<close>

text \<open>
  C7. For every player cell \<open>p\<close> and radius \<open>r\<close>, the computed visible window is exactly the
  set of the \<open>(2r+1)^2\<close> coordinates \<open>(i, j)\<close> with \<open>|i - p.i| \<le> r\<close> and \<open>|j - p.j| \<le> r\<close>.
  The two loops visit exactly these coordinates, each once. With the radius of the program,
  \<^verbatim>\<open>renderVisibleCells\<close> of \<^verbatim>\<open>src/main.ts\<close> leaves in \<^verbatim>\<open>cellMap\<close> exactly the keys of these
  cells, 625 of them, and the one of \<^verbatim>\<open>part_002\<close> and \<^verbatim>\<open>part_001\<close> has decided each of them.
\<close>

theorem visible_window_is_chebyshev_square:
  "set (visibleCells p r) = {(i, j). \<bar>i - fst p\<bar> \<le> int r \<and> \<bar>j - snd p\<bar> \<le> int r}
   \<and> distinct (visibleCells p r)
   \<and> card (set (visibleCells p r)) = (2 * r + 1)\<^sup>2
   \<and> keys_of (cellMap (renderVisibleCells_main s)) = window_keys s
   \<and> card (window_keys s) = 625
   \<and> window_keys t \<subseteq> keys_of (modifiedCells (renderVisibleCells t))"
proof -
  have "card (window_keys s) = 625"
    by (simp add: card_window_keys RENDER_RADIUS_def)
  then show ?thesis
    using set_visibleCells [of p r] distinct_visibleCells [of p r] card_visibleCells [of p r]
      renderVisibleCells_main_keys [of s] renderVisibleCells_decides [of t]
    by blast
qed

text \<open>
  C2. For every coordinate \<open>c\<close> and content \<open>v\<close>, after \<open>write(c, v)\<close> every later \<open>read(c)\<close>
  returns \<open>v\<close>, also after \<open>c\<close> has left the visible window and come back. As amended: in
  \<^verbatim>\<open>part_002\<close> and \<^verbatim>\<open>part_001\<close>, after \<^verbatim>\<open>saveCell(i, j, v)\<close> and any sequence of events that are
  neither a click on the cell \<open>(i, j)\<close> nor a restart (movements, clicks elsewhere, mode
  toggles), \<^verbatim>\<open>getCellToken(i, j)\<close> returns \<open>v\<close>; in \<^verbatim>\<open>src/main.ts\<close> a movement keeps the content
  of a cell that is inside the new window.
\<close>

theorem memento_durability:
  "(list_all (leaves_cell i j) es \<longrightarrow>
      fst (getCellToken i j (fold step_p2 es (saveCell_p2 i j v s))) = v \<and>
      fst (getCellToken i j (fold step_p1 es (saveCell_p1 i j v s))) = v)
   \<and> (map_of (cellMap t) (cellKey i j) = Some v \<and> cellKey i j \<in> window_keys (t\<lparr>playerLatLng := c\<rparr>) \<longrightarrow>
        map_of (cellMap (moveend_main c t)) (cellKey i j) = Some v)"
proof (intro conjI impI)
  assume es: "list_all (leaves_cell i j) es"
  have "map_of (modifiedCells (saveCell_p2 i j v s)) (cellKey i j) = Some v"
    by (simp add: saveCell_p2_def update_conv')
  then have "map_of (modifiedCells (fold step_p2 es (saveCell_p2 i j v s))) (cellKey i j) = Some v"
    by (rule events_p2_keep [OF es])
  then show "fst (getCellToken i j (fold step_p2 es (saveCell_p2 i j v s))) = v"
    by (simp add: getCellToken_hit)
  have "map_of (modifiedCells (saveCell_p1 i j v s)) (cellKey i j) = Some v"
    by (simp add: saveCell_p1_def saveGameState_def update_conv')
  then have "map_of (modifiedCells (fold step_p1 es (saveCell_p1 i j v s))) (cellKey i j) = Some v"
    by (rule events_p1_keep [OF es])
  then show "fst (getCellToken i j (fold step_p1 es (saveCell_p1 i j v s))) = v"
    by (simp add: getCellToken_hit)
next
  assume "map_of (cellMap t) (cellKey i j) = Some v \<and> cellKey i j \<in> window_keys (t\<lparr>playerLatLng := c\<rparr>)"
  then show "map_of (cellMap (moveend_main c t)) (cellKey i j) = Some v"
    by (simp add: moveend_main_def renderVisibleCells_main_inside)
qed

text \<open>
  The amended statement at a walk of twenty cells north and back, with a click on another
  cell on the way.
\<close>

theorem memento_durability_witness:
  "fst (getCellToken 0 0
      (fold step_p2 [MoveEnd far_north, Click 20 1, MoveEnd FALLBACK_LATLNG]
         (saveCell_p2 0 0 (Some 4) (globals_store dry None)))) = Some 4
   \<and> fst (getCellToken 0 0
      (fold step_p1 [ToggleMode, MoveEnd far_north, Click 20 1, WatchPosition FALLBACK_LATLNG]
         (saveCell_p1 0 0 (Some 4) (globals_store dry None)))) = Some 4
   \<and> map_of (cellMap (moveend_main FALLBACK_LATLNG ((globals_grid dry)\<lparr>cellMap := [(cellKey 0 0, Some 4)]\<rparr>)))
        (cellKey 0 0) = Some (Some 4)"
proof -
  have w: "cellKey 0 0 \<in> window_keys
      ((globals_grid dry)\<lparr>cellMap := [(cellKey 0 0, Some 4)], playerLatLng := FALLBACK_LATLNG\<rparr>)"
    by (rule origin_in_home_window) (simp add: globals_grid_def)
  have a: "fst (getCellToken 0 0
      (fold step_p2 [MoveEnd far_north, Click 20 1, MoveEnd FALLBACK_LATLNG]
         (saveCell_p2 0 0 (Some 4) (globals_store dry None)))) = Some 4"
    using memento_durability
      [where es = "[MoveEnd far_north, Click 20 1, MoveEnd FALLBACK_LATLNG]"
         and i = 0 and j = 0 and v = "Some 4" and s = "globals_store dry None"]
    by (simp add: leaves_cell_def)
  have b: "fst (getCellToken 0 0
      (fold step_p1 [ToggleMode, MoveEnd far_north, Click 20 1, WatchPosition FALLBACK_LATLNG]
         (saveCell_p1 0 0 (Some 4) (globals_store dry None)))) = Some 4
    \<and> map_of (cellMap (moveend_main FALLBACK_LATLNG
          ((globals_grid dry)\<lparr>cellMap := [(cellKey 0 0, Some 4)]\<rparr>))) (cellKey 0 0) = Some (Some 4)"
    using memento_durability
      [where es = "[ToggleMode, MoveEnd far_north, Click 20 1, WatchPosition FALLBACK_LATLNG]"
         and i = 0 and j = 0 and v = "Some 4" and s = "globals_store dry None"
         and t = "(globals_grid dry)\<lparr>cellMap := [(cellKey 0 0, Some 4)]\<rparr>"
         and c = FALLBACK_LATLNG] w
    by (simp add: leaves_cell_def)
  from a b show ?thesis by (simp only: simp_thms)
qed

text \<open>
  In \<^verbatim>\<open>src/main.ts\<close> the claim as stated fails. Nothing spawns in this session; the player
  places a 4 on the cell under their feet, walks twenty cells north and comes back: the cell
  is empty.
\<close>

theorem written_cell_is_forgotten_outside_the_window:
  "map_of (cellMap (click_main 0 0 ((startup_main None dry)\<lparr>heldToken := Some 4\<rparr>))) (cellKey 0 0)
     = Some (Some 4)
   \<and> map_of (cellMap (moveend_main FALLBACK_LATLNG (moveend_main far_north
         (click_main 0 0 ((startup_main None dry)\<lparr>heldToken := Some 4\<rparr>))))) (cellKey 0 0)
     = Some None"
proof -
  define s0 where "s0 = (startup_main None dry)\<lparr>heldToken := Some 4\<rparr>"
  define s1 where "s1 = click_main 0 0 s0"
  define s2 where "s2 = moveend_main far_north s1"
  define s3 where "s3 = moveend_main FALLBACK_LATLNG s2"
  have s0: "rng s0 = dry" "PLAYER_START_LATLNG s0 = FALLBACK_LATLNG"
    "playerLatLng s0 = FALLBACK_LATLNG" "heldToken s0 = Some 4"
    "map_of (cellMap s0) (cellKey 0 0) = Some None"
    by (simp_all add: s0_def startup_main_dry)
  have can: "canInteract s0 0 0" by (rule canInteract_home) (simp add: s0)
  have s1: "rng s1 = dry" "PLAYER_START_LATLNG s1 = FALLBACK_LATLNG"
    "map_of (cellMap s1) (cellKey 0 0) = Some (Some 4)"
    using can by (simp_all add: s1_def click_main_def s0 update_conv')
  have s2: "rng s2 = dry" "PLAYER_START_LATLNG s2 = FALLBACK_LATLNG"
    "map_of (cellMap s2) (cellKey 0 0) = None"
    by (simp_all add: s2_def moveend_main_def renderVisibleCells_main_dry s1
        renderVisibleCells_main_fields far_window_keys)
  have "map_of (cellMap s3) (cellKey 0 0) = Some None"
    by (simp add: s3_def moveend_main_def renderVisibleCells_main_dry s2 origin_in_home_window)
  with s1(3) show ?thesis by (simp add: s0_def s1_def s2_def s3_def)
qed

text \<open>
  C3. No operation removes an entry from the cell store except the full clear of a restart;
  the window recomputation of a movement never deletes one. As amended: in \<^verbatim>\<open>part_002\<close> and
  \<^verbatim>\<open>part_001\<close> every event other than a restart keeps every key of \<^verbatim>\<open>modifiedCells\<close>, and so
  does \<^verbatim>\<open>renderVisibleCells\<close>; in \<^verbatim>\<open>src/main.ts\<close> the recomputation leaves in \<^verbatim>\<open>cellMap\<close>
  exactly the keys of the window.
\<close>

theorem store_entries_are_never_removed:
  "((\<forall>ev. e \<noteq> Restart ev) \<longrightarrow>
      keys_of (modifiedCells s) \<subseteq> keys_of (modifiedCells (step_p2 e s)) \<and>
      keys_of (modifiedCells s) \<subseteq> keys_of (modifiedCells (step_p1 e s)))
   \<and> keys_of (modifiedCells s) \<subseteq> keys_of (modifiedCells (renderVisibleCells s))
   \<and> keys_of (cellMap (renderVisibleCells_main t)) = window_keys t"
  using step_p2_keys [of e s] step_p1_keys [of e s]
  by (simp add: renderVisibleCells_keys renderVisibleCells_main_keys)

text \<open>The amended statement at a move and at a position fix, with a stored cell far away.\<close>

theorem store_entries_are_never_removed_witness:
  "keys_of (modifiedCells (saveCell_p2 50 50 (Some 2) (globals_store dry None)))
     \<subseteq> keys_of (modifiedCells (step_p2 (MoveEnd far_north)
           (saveCell_p2 50 50 (Some 2) (globals_store dry None))))
   \<and> keys_of (modifiedCells (saveCell_p2 50 50 (Some 2) (globals_store dry None)))
     \<subseteq> keys_of (modifiedCells (step_p1 (WatchPosition far_north)
           (saveCell_p2 50 50 (Some 2) (globals_store dry None))))
   \<and> cellKey 50 50 \<in> keys_of (modifiedCells (saveCell_p2 50 50 (Some 2) (globals_store dry None)))"
proof -
  have m: "\<forall>ev. MoveEnd far_north \<noteq> Restart ev" and w: "\<forall>ev. WatchPosition far_north \<noteq> Restart ev"
    by simp_all
  show ?thesis
    using store_entries_are_never_removed
        [of "MoveEnd far_north" "saveCell_p2 50 50 (Some 2) (globals_store dry None)"]
      store_entries_are_never_removed
        [of "WatchPosition far_north" "saveCell_p2 50 50 (Some 2) (globals_store dry None)"]
      m w
    by (simp add: saveCell_keys)
qed

text \<open>
  In \<^verbatim>\<open>src/main.ts\<close> the claim as stated fails: the cell under the player's feet has an entry
  after start-up and none after a move of twenty cells.
\<close>

theorem window_recomputation_deletes_cellMap_entry:
  "cellKey 0 0 \<in> keys_of (cellMap (startup_main None dry))
   \<and> cellKey 0 0 \<notin> keys_of (cellMap (moveend_main far_north (startup_main None dry)))"
proof -
  have "map_of (cellMap (moveend_main far_north (startup_main None dry))) (cellKey 0 0) = None"
    by (simp add: moveend_main_def renderVisibleCells_main_outside far_window_keys startup_main_dry)
  then show ?thesis
    by (simp add: keys_of_map_of domIff startup_main_dry)
qed

text \<open>
  C4. For every in-range interaction on a cell: with an empty hand on a cell that holds \<open>v\<close>,
  the hand then holds \<open>v\<close>, the cell is empty and the score has grown by exactly 1; with \<open>v\<close>
  in the hand on an empty cell, the cell then holds \<open>v\<close>, the hand is empty and the score is
  unchanged; with \<open>v\<close> in the hand on a cell that holds an equal \<open>v\<close>, the cell is then empty,
  the hand holds \<open>2v\<close> and the score has grown by exactly 2. The statement is about the click
  handlers of all four variants; the triple observed is (hand, content of the cell, score).
\<close>

theorem interaction_transitions:
  "(canInteract s i j \<longrightarrow>
      (observe_store s i j = (None, Some (Some v), p) \<longrightarrow>
         observe_store (click_p2 i j s) i j = (Some v, Some None, p + 1) \<and>
         observe_store (click_p1 i j s) i j = (Some v, Some None, p + 1)) \<and>
      (observe_store s i j = (Some v, Some None, p) \<longrightarrow>
         observe_store (click_p2 i j s) i j = (None, Some (Some v), p) \<and>
         observe_store (click_p1 i j s) i j = (None, Some (Some v), p)) \<and>
      (observe_store s i j = (Some v, Some (Some v), p) \<longrightarrow>
         observe_store (click_p2 i j s) i j = (Some (2 * v), Some None, p + 2) \<and>
         observe_store (click_p1 i j s) i j = (Some (2 * v), Some None, p + 2)))
   \<and> (canInteract t i j \<longrightarrow>
      (observe_grid t i j = (None, Some (Some v), p) \<longrightarrow>
         observe_grid (click_main i j t) i j = (Some v, Some None, p + 1)) \<and>
      (observe_grid t i j = (Some v, Some None, p) \<longrightarrow>
         observe_grid (click_main i j t) i j = (None, Some (Some v), p)) \<and>
      (observe_grid t i j = (Some v, Some (Some v), p) \<longrightarrow>
         observe_grid (click_main i j t) i j = (Some (2 * v), Some None, p + 2)))
   \<and> (canInteract_p0 i j \<longrightarrow>
      (observe_grid t i j = (None, Some (Some v), p) \<longrightarrow>
         observe_grid (click_p0 i j t) i j = (Some v, Some None, p + 1)) \<and>
      (observe_grid t i j = (Some v, Some None, p) \<longrightarrow>
         observe_grid (click_p0 i j t) i j = (None, Some (Some v), p)) \<and>
      (observe_grid t i j = (Some v, Some (Some v), p) \<longrightarrow>
         observe_grid (click_p0 i j t) i j = (Some (2 * v), Some None, p + 2)))"
  by (rule conjI [OF store_transitions conjI [OF main_transitions p0_transitions]])

text \<open>The three transitions at the cell under the player's feet: 8 picked up, 4 placed, 8 on 8.\<close>

theorem interaction_transitions_witness:
  "observe_store (click_p2 0 0 (store_with None (Some 8))) 0 0 = (Some 8, Some None, 1)
   \<and> observe_grid (click_main 0 0 (grid_with None (Some 8))) 0 0 = (Some 8, Some None, 1)
   \<and> observe_store (click_p1 0 0 (store_with (Some 4) None)) 0 0 = (None, Some (Some 4), 0)
   \<and> observe_grid (click_p0 0 0 (grid_with (Some 4) None)) 0 0 = (None, Some (Some 4), 0)
   \<and> observe_store (click_p2 0 0 (store_with (Some 8) (Some 8))) 0 0 = (Some 16, Some None, 2)
   \<and> observe_grid (click_main 0 0 (grid_with (Some 8) (Some 8))) 0 0 = (Some 16, Some None, 2)"
proof -
  have pick: "observe_store (click_p2 0 0 (store_with None (Some 8))) 0 0 = (Some 8, Some None, 1)
      \<and> observe_grid (click_main 0 0 (grid_with None (Some 8))) 0 0 = (Some 8, Some None, 1)"
    using interaction_transitions [of "store_with None (Some 8)" 0 0 8 0 "grid_with None (Some 8)"]
    by (simp add: with_in_range with_observe)
  have place: "observe_store (click_p1 0 0 (store_with (Some 4) None)) 0 0 = (None, Some (Some 4), 0)
      \<and> observe_grid (click_p0 0 0 (grid_with (Some 4) None)) 0 0 = (None, Some (Some 4), 0)"
    using interaction_transitions [of "store_with (Some 4) None" 0 0 4 0 "grid_with (Some 4) None"]
    by (simp add: with_in_range with_observe)
  have craft: "observe_store (click_p2 0 0 (store_with (Some 8) (Some 8))) 0 0 = (Some 16, Some None, 2)
      \<and> observe_grid (click_main 0 0 (grid_with (Some 8) (Some 8))) 0 0 = (Some 16, Some None, 2)"
    using interaction_transitions
      [of "store_with (Some 8) (Some 8)" 0 0 8 0 "grid_with (Some 8) (Some 8)"]
    by (simp add: with_in_range with_observe)
  from pick place craft show ?thesis by (simp only: simp_thms)
qed

text \<open>
  C8. A rejected interaction causes no state mutation: an interaction on a cell outside the
  interact radius, or with a held token whose value differs from the cell's token, leaves
  the held token, the cell's content and the score unchanged. In \<^verbatim>\<open>part_000\<close> and
  \<^verbatim>\<open>src/main.ts\<close> the handler leaves the whole state as it is; in \<^verbatim>\<open>part_002\<close> and \<^verbatim>\<open>part_001\<close>
  the hand, the whole store and the score are unchanged.
\<close>

theorem rejected_interaction_changes_nothing:
  "((\<not> canInteract_p0 i j \<or>
      (heldToken t = Some v \<and> map_of (cellMap t) (cellKey i j) = Some (Some w) \<and> v \<noteq> w)) \<longrightarrow>
      click_p0 i j t = t)
   \<and> ((\<not> canInteract t i j \<or>
      (heldToken t = Some v \<and> map_of (cellMap t) (cellKey i j) = Some (Some w) \<and> v \<noteq> w)) \<longrightarrow>
      click_main i j t = t)
   \<and> ((\<not> canInteract s i j \<or>
      (heldToken s = Some v \<and> map_of (modifiedCells s) (cellKey i j) = Some (Some w) \<and> v \<noteq> w)) \<longrightarrow>
      heldToken (click_p2 i j s) = heldToken s \<and> modifiedCells (click_p2 i j s) = modifiedCells s \<and>
      playerPoints (click_p2 i j s) = playerPoints s \<and>
      heldToken (click_p1 i j s) = heldToken s \<and> modifiedCells (click_p1 i j s) = modifiedCells s \<and>
      playerPoints (click_p1 i j s) = playerPoints s)"
proof (intro conjI impI)
  assume "\<not> canInteract_p0 i j \<or>
      (heldToken t = Some v \<and> map_of (cellMap t) (cellKey i j) = Some (Some w) \<and> v \<noteq> w)"
  then show "click_p0 i j t = t" by (rule click_p0_rejected)
next
  assume "\<not> canInteract t i j \<or>
      (heldToken t = Some v \<and> map_of (cellMap t) (cellKey i j) = Some (Some w) \<and> v \<noteq> w)"
  then show "click_main i j t = t" by (rule click_main_rejected)
next
  assume a: "\<not> canInteract s i j \<or>
      (heldToken s = Some v \<and> map_of (modifiedCells s) (cellKey i j) = Some (Some w) \<and> v \<noteq> w)"
  have all: "heldToken (click_p2 i j s) = heldToken s \<and> modifiedCells (click_p2 i j s) = modifiedCells s \<and>
      playerPoints (click_p2 i j s) = playerPoints s \<and>
      heldToken (click_p1 i j s) = heldToken s \<and> modifiedCells (click_p1 i j s) = modifiedCells s \<and>
      playerPoints (click_p1 i j s) = playerPoints s"
    using a click_store_out_of_range [of s i j] click_store_mismatch [of s v i j w] by auto
  from all show "heldToken (click_p2 i j s) = heldToken s" by simp
  from all show "modifiedCells (click_p2 i j s) = modifiedCells s" by simp
  from all show "playerPoints (click_p2 i j s) = playerPoints s" by simp
  from all show "heldToken (click_p1 i j s) = heldToken s" by simp
  from all show "modifiedCells (click_p1 i j s) = modifiedCells s" by simp
  from all show "playerPoints (click_p1 i j s) = playerPoints s" by simp
qed

text \<open>A click seven cells away, and 16 in the hand on a cell that holds 4.\<close>

theorem rejected_interaction_changes_nothing_witness:
  "click_p0 7 0 (grid_with None (Some 8)) = grid_with None (Some 8)
   \<and> click_p0 0 0 (grid_with (Some 16) (Some 4)) = grid_with (Some 16) (Some 4)
   \<and> click_main 0 0 (grid_with (Some 16) (Some 4)) = grid_with (Some 16) (Some 4)
   \<and> heldToken (click_p2 0 0 (store_with (Some 16) (Some 4))) = Some 16
   \<and> modifiedCells (click_p2 0 0 (store_with (Some 16) (Some 4))) = [(cellKey 0 0, Some 4)]
   \<and> playerPoints (click_p2 0 0 (store_with (Some 16) (Some 4))) = 0
   \<and> heldToken (click_p1 0 0 (store_with (Some 16) (Some 4))) = Some 16
   \<and> modifiedCells (click_p1 0 0 (store_with (Some 16) (Some 4))) = [(cellKey 0 0, Some 4)]
   \<and> playerPoints (click_p1 0 0 (store_with (Some 16) (Some 4))) = 0"
proof -
  have far: "\<not> canInteract_p0 7 0" by (simp add: canInteract_p0_def INTERACT_RANGE_def)
  have g: "heldToken (grid_with (Some 16) (Some 4)) = Some 16"
    "map_of (cellMap (grid_with (Some 16) (Some 4))) (cellKey 0 0) = Some (Some 4)"
    "heldToken (store_with (Some 16) (Some 4)) = Some 16"
    "map_of (modifiedCells (store_with (Some 16) (Some 4))) (cellKey 0 0) = Some (Some 4)"
    "modifiedCells (store_with (Some 16) (Some 4)) = [(cellKey 0 0, Some 4)]"
    "playerPoints (store_with (Some 16) (Some 4)) = 0"
    by (simp_all add: grid_with_def store_with_def globals_store_def globals_grid_def)
  show ?thesis
    using
      rejected_interaction_changes_nothing
        [where i = 7 and j = 0 and t = "grid_with None (Some 8)"]
      rejected_interaction_changes_nothing
        [where i = 0 and j = 0 and t = "grid_with (Some 16) (Some 4)" and v = 16 and w = 4
           and s = "store_with (Some 16) (Some 4)"]
      far g
    by simp
qed

text \<open>
  C1. For every cell coordinate that has never been written, generating its default
  content twice, from fresh stores and with the same session constants, yields identical
  content: generation is a pure function of the coordinate and of fixed tags and constants,
  with no dependency on external randomness. In \<^verbatim>\<open>part_001\<close>, \<^verbatim>\<open>part_002\<close> and \<^verbatim>\<open>src/main.ts\<close>
  the content is drawn from \<^verbatim>\<open>crypto.getRandomValues\<close>: the same coordinate, on a fresh store,
  gets a 32 under one outcome of the platform's random source and nothing under another.
\<close>

theorem generation_depends_on_the_random_source:
  "fst (getCellToken 0 0 (globals_store rich None)) = Some 32
   \<and> fst (getCellToken 0 0 (globals_store dry None)) = None
   \<and> map_of (cellMap (renderCell_main 0 0 (globals_grid rich))) (cellKey 0 0) = Some (Some 32)
   \<and> map_of (cellMap (renderCell_main 0 0 (globals_grid dry))) (cellKey 0 0) = Some None"
proof -
  have "rng (globals_store rich None) = rich" "rng (globals_store dry None) = dry"
    "map_of (modifiedCells (globals_store rich None)) (cellKey 0 0) = None"
    "map_of (modifiedCells (globals_store dry None)) (cellKey 0 0) = None"
    "rng (globals_grid rich) = rich" "rng (globals_grid dry) = dry"
    by (simp_all add: globals_store_def globals_grid_def)
  then show ?thesis
    by (simp add: getCellToken_rich getCellToken_dry renderCell_main_rich renderCell_main_dry)
qed

text \<open>
  C9. The won state is reachable by a single pick-up with no craft: for some outcome of the
  generator a freshly generated cell holds a token \<open>2^(1 + floor(r * 5))\<close> that reaches the
  victory threshold 32, and the pick-up transition runs the victory check, which fires on a
  held token of at least 32. First the pick-up of \<^verbatim>\<open>part_001\<close> in general, then a fresh
  session whose cell under the player's feet was generated as a 32: one click, score 1, and
  the victory overlay is displayed.
\<close>

theorem victory_by_a_single_pick_up:
  "(canInteract s i j \<and> heldToken s = None \<and>
      map_of (modifiedCells s) (cellKey i j) = Some (Some v) \<and> TARGET_MAX_TOKEN \<le> v \<longrightarrow>
      overlayShown (click_p1 i j s) \<and> heldToken (click_p1 i j s) = Some v \<and>
      playerPoints (click_p1 i j s) = playerPoints s + 1)
   \<and> startup_p1 None None None rich \<noteq> None
   \<and> heldToken (the (startup_p1 None None None rich)) = None
   \<and> playerPoints (the (startup_p1 None None None rich)) = 0
   \<and> \<not> overlayShown (the (startup_p1 None None None rich))
   \<and> map_of (modifiedCells (the (startup_p1 None None None rich))) (cellKey 0 0) = Some (Some 32)
   \<and> overlayShown (click_p1 0 0 (the (startup_p1 None None None rich)))
   \<and> heldToken (click_p1 0 0 (the (startup_p1 None None None rich))) = Some 32
   \<and> playerPoints (click_p1 0 0 (the (startup_p1 None None None rich))) = 1"
proof -
  let ?S = "the (startup_p1 None None None rich)"
  have can: "canInteract ?S 0 0" by (rule canInteract_home) (simp add: startup_p1_rich)
  have "TARGET_MAX_TOKEN \<le> 32" by (simp add: TARGET_MAX_TOKEN_def)
  from click_p1_pick_up_victory [OF can startup_p1_rich(2) startup_p1_rich(7) this]
  have won: "overlayShown (click_p1 0 0 ?S) \<and> heldToken (click_p1 0 0 ?S) = Some 32 \<and>
      playerPoints (click_p1 0 0 ?S) = 1"
    by (simp add: startup_p1_rich)
  have gen: "canInteract s i j \<and> heldToken s = None \<and>
      map_of (modifiedCells s) (cellKey i j) = Some (Some v) \<and> TARGET_MAX_TOKEN \<le> v \<longrightarrow>
      overlayShown (click_p1 i j s) \<and> heldToken (click_p1 i j s) = Some v \<and>
      playerPoints (click_p1 i j s) = playerPoints s + 1"
    using click_p1_pick_up_victory [of s i j v] by blast
  have some: "startup_p1 None None None rich \<noteq> None" by (simp add: startup_p1_fresh)
  from gen some won show ?thesis by (simp only: startup_p1_rich simp_thms)
qed

text \<open>The general part at a cell that holds a 64, the largest value the generator produces.\<close>

theorem victory_by_a_single_pick_up_witness:
  "overlayShown (click_p1 0 0 (store_with None (Some 64)))
   \<and> heldToken (click_p1 0 0 (store_with None (Some 64))) = Some 64
   \<and> playerPoints (click_p1 0 0 (store_with None (Some 64))) = 1"
proof -
  have h: "heldToken (store_with None (Some 64)) = None"
    "map_of (modifiedCells (store_with None (Some 64))) (cellKey 0 0) = Some (Some 64)"
    "playerPoints (store_with None (Some 64)) = 0" "TARGET_MAX_TOKEN \<le> 64"
    by (simp_all add: store_with_def globals_store_def TARGET_MAX_TOKEN_def)
  show ?thesis
    using victory_by_a_single_pick_up [of "store_with None (Some 64)" 0 0 64] h
    by (simp add: with_in_range)
qed

text \<open>
  C6. The restart action, from any state, resets the score to 0 and the held token to
  \<open>None\<close>, clears the cell store to empty, and re-anchors the Origin to the player's
  position at the moment of restart. As amended: restart resets the score to 0, the held
  token to \<open>None\<close> and hides the victory overlay; it discards every entry of the cell store,
  so that its result does not depend on the store before, and then renders the window, after
  which the store holds the freshly generated cells of the window around the player (when
  \<^verbatim>\<open>map.setView\<close> raises no \<^verbatim>\<open>moveend\<close> of its own, exactly these). In \<^verbatim>\<open>part_001\<close> the Origin
  becomes the player's position at the moment of restart and the player stays there; in
  \<^verbatim>\<open>part_002\<close> the Origin is kept and the player is moved back to it.
\<close>

theorem restart_resets_the_session:
  "playerPoints (restartGame_p1 ev s) = 0
   \<and> heldToken (restartGame_p1 ev s) = None
   \<and> \<not> overlayShown (restartGame_p1 ev s)
   \<and> PLAYER_START_LATLNG (restartGame_p1 ev s) = playerLatLng s
   \<and> playerLatLng (restartGame_p1 ev s) = playerLatLng s
   \<and> restartGame_p1 ev (s\<lparr>modifiedCells := m\<rparr>) = restartGame_p1 ev s
   \<and> keys_of (modifiedCells (restartGame_p1 None s)) = window_keys (restartGame_p1 None s)
   \<and> playerPoints (restartGame_p2 ev s) = 0
   \<and> heldToken (restartGame_p2 ev s) = None
   \<and> \<not> overlayShown (restartGame_p2 ev s)
   \<and> PLAYER_START_LATLNG (restartGame_p2 ev s) = PLAYER_START_LATLNG s
   \<and> playerLatLng (restartGame_p2 ev s) = PLAYER_START_LATLNG s
   \<and> restartGame_p2 ev (s\<lparr>modifiedCells := m\<rparr>) = restartGame_p2 ev s
   \<and> keys_of (modifiedCells (restartGame_p2 None s)) = window_keys (restartGame_p2 None s)"
  by (simp only: restartGame_p1_fields restartGame_p2_fields restartGame_forgets_store
      restartGame_keys simp_thms)

text \<open>
  The claim as stated fails. In \<^verbatim>\<open>part_002\<close>, after a move of twenty cells north, restart
  leaves the Origin at the classroom, which is not where the player stood; and after
  restart the store of either variant is not empty.
\<close>

theorem restart_keeps_origin_and_refills_store:
  "PLAYER_START_LATLNG (restartGame_p2 None (moveend_p2 far_north (startup_p2 None dry)))
     \<noteq> playerLatLng (moveend_p2 far_north (startup_p2 None dry))
   \<and> modifiedCells (restartGame_p2 None (moveend_p2 far_north (startup_p2 None dry))) \<noteq> []
   \<and> modifiedCells (restartGame_p1 None (watchPosition_p1 far_north (the (startup_p1 None None None dry))))
     \<noteq> []"
proof -
  let ?s = "moveend_p2 far_north (startup_p2 None dry)"
  let ?t = "watchPosition_p1 far_north (the (startup_p1 None None None dry))"
  have "PLAYER_START_LATLNG ?s = FALLBACK_LATLNG"
    by (simp add: moveend_p2_fields startup_p2_def renderVisibleCells_fields
        position_or_fallback_def globals_store_def)
  then have a: "PLAYER_START_LATLNG (restartGame_p2 None ?s) \<noteq> playerLatLng ?s"
    using far_north_not_home by (simp add: restartGame_p2_fields moveend_p2_fields)
  have "cellKey 0 0 \<in> window_keys (restartGame_p2 None ?s)"
    by (rule origin_in_home_window) (simp add: restartGame_p2_fields)
  then have b: "modifiedCells (restartGame_p2 None ?s) \<noteq> []"
    using restartGame_keys(2) [of ?s] keys_nonempty by metis
  have "cellKey 0 0 \<in> window_keys (restartGame_p1 None ?t)"
    by (rule origin_in_home_window) (simp add: restartGame_p1_fields)
  then have c: "modifiedCells (restartGame_p1 None ?t) \<noteq> []"
    using restartGame_keys(1) [of ?t] keys_nonempty by metis
  from a b c show ?thesis by simp
qed

text \<open>
  C5. Deserializing the serialization of any reachable game state (origin, player
  position, score, held token, modified-cell store, mode flag) yields a state equal to the
  original. The item that \<^verbatim>\<open>saveGameState\<close> stores for a reachable state \<open>s\<close> of \<^verbatim>\<open>part_001\<close> is
  accepted by \<^verbatim>\<open>loadGameState\<close>, whatever the globals \<open>t\<close> are at that moment, and sets the six
  globals to the values they have in \<open>s\<close>, the store with its entries in their order.
\<close>

theorem saved_state_round_trip:
  "reachable_p1 s \<Longrightarrow>
   loadGameState (t\<lparr>localStorage := localStorage (saveGameState s)\<rparr>) =
     Some (True, t\<lparr>localStorage := localStorage (saveGameState s),
                    PLAYER_START_LATLNG := PLAYER_START_LATLNG s,
                    playerLatLng := playerLatLng s,
                    playerPoints := playerPoints s,
                    heldToken := heldToken s,
                    modifiedCells := modifiedCells s,
                    movementMode := movementMode s\<rparr>)"
  using loadGameState_serialized [OF reachable_p1_distinct, of s t]
  by (simp add: saveGameState_def)

text \<open>
  A reachable state with a full store and a token in the hand: a fresh session in which
  every cell spawns a 32, after a click on the cell under the player's feet.
\<close>

theorem saved_state_round_trip_witness:
  "loadGameState ((globals_store dry None)\<lparr>localStorage :=
       localStorage (saveGameState (click_p1 0 0 (the (startup_p1 None None None rich))))\<rparr>) =
     Some (True, (globals_store dry None)
       \<lparr>localStorage := localStorage (saveGameState (click_p1 0 0 (the (startup_p1 None None None rich)))),
        PLAYER_START_LATLNG := PLAYER_START_LATLNG (click_p1 0 0 (the (startup_p1 None None None rich))),
        playerLatLng := playerLatLng (click_p1 0 0 (the (startup_p1 None None None rich))),
        playerPoints := playerPoints (click_p1 0 0 (the (startup_p1 None None None rich))),
        heldToken := heldToken (click_p1 0 0 (the (startup_p1 None None None rich))),
        modifiedCells := modifiedCells (click_p1 0 0 (the (startup_p1 None None None rich))),
        movementMode := movementMode (click_p1 0 0 (the (startup_p1 None None None rich)))\<rparr>)"
proof -
  have "startup_p1 None None None rich = Some (the (startup_p1 None None None rich))"
    by (simp add: startup_p1_fresh)
  then have "reachable_p1 (the (startup_p1 None None None rich))" by (rule fresh_p1)
  then have "reachable_p1 (step_p1 (Click 0 0) (the (startup_p1 None None None rich)))"
    by (rule step_p1)
  then have "reachable_p1 (click_p1 0 0 (the (startup_p1 None None None rich)))" by simp
  then show ?thesis by (rule saved_state_round_trip)
qed

text \<open>
  C10. In every state reachable from a fresh session, the held token and every value in
  the cell store is \<open>None\<close> or a power of two that is at least 2; every generation, pick-up,
  place and craft preserves this. For \<^verbatim>\<open>part_002\<close>, for the sessions of \<^verbatim>\<open>part_001\<close> that restore
  nothing, and for \<^verbatim>\<open>src/main.ts\<close>: every reachable state has its tokens in order, every event
  keeps them in order, and what \<^verbatim>\<open>getCellToken\<close> returns or \<^verbatim>\<open>renderCell\<close> generates is in the
  family. For \<^verbatim>\<open>part_000\<close> the same holds of the states reached from \<^verbatim>\<open>renderGrid\<close> by clicks,
  and of the cell that \<^verbatim>\<open>renderCell\<close> generates, when the hash \<^verbatim>\<open>luck\<close> never answers a negative
  number (\<^verbatim>\<open>_luck.ts\<close> is not among the sources; a number below 0 would give an exponent
  below 1).
\<close>

theorem tokens_stay_in_the_doubling_family:
  "(reachable_p2 s \<longrightarrow> tokens_ok_store s)
   \<and> (reachable_fresh_p1 s \<longrightarrow> tokens_ok_store s)
   \<and> (tokens_ok_store u \<longrightarrow>
        tokens_ok_store (step_p2 e u) \<and> tokens_ok_store (step_p1 e u) \<and>
        doubling_token (fst (getCellToken i j u)))
   \<and> (reachable_main t \<longrightarrow> tokens_ok_grid t)
   \<and> (tokens_ok_grid w \<longrightarrow>
        tokens_ok_grid (step_main e w) \<and> tokens_ok_grid (renderCell_main i j w))
   \<and> ((\<forall>seed. 0 \<le> luck seed) \<longrightarrow>
        (reachable_p0 luck t \<longrightarrow> tokens_ok_grid t) \<and>
        (tokens_ok_grid w \<longrightarrow>
           tokens_ok_grid (step_p0 e w) \<and> tokens_ok_grid (renderCell_p0 luck i j w)))"
proof (intro conjI impI)
  assume "reachable_p2 s"
  then show "tokens_ok_store s" by (rule reachable_p2_tokens_ok)
next
  assume "reachable_fresh_p1 s"
  then show "tokens_ok_store s" by (rule reachable_fresh_p1_tokens_ok)
next
  assume "tokens_ok_store u"
  then show "tokens_ok_store (step_p2 e u)" by (rule step_p2_tokens_ok)
next
  assume "tokens_ok_store u"
  then show "tokens_ok_store (step_p1 e u)" by (rule step_p1_tokens_ok)
next
  assume "tokens_ok_store u"
  then show "doubling_token (fst (getCellToken i j u))"
    by (simp add: tokens_ok_store_def getCellToken_token_ok)
next
  assume "reachable_main t"
  then show "tokens_ok_grid t" by (rule reachable_main_tokens_ok)
next
  assume "tokens_ok_grid w"
  then show "tokens_ok_grid (step_main e w)" by (rule step_main_tokens_ok)
next
  assume "tokens_ok_grid w"
  then show "tokens_ok_grid (renderCell_main i j w)" by (rule renderCell_main_tokens_ok)
next
  assume "\<forall>seed. 0 \<le> luck seed" and "reachable_p0 luck t"
  then show "tokens_ok_grid t" by (rule reachable_p0_tokens_ok [rotated])
next
  assume "tokens_ok_grid w"
  then show "tokens_ok_grid (step_p0 e w)" by (rule step_p0_tokens_ok)
next
  assume "\<forall>seed. 0 \<le> luck seed" and "tokens_ok_grid w"
  then show "tokens_ok_grid (renderCell_p0 luck i j w)" by (rule renderCell_p0_tokens_ok)
qed

text \<open>
  A click in a fresh session of each variant where every cell spawns a 32, a craft of 8 on
  8, and the grid of \<^verbatim>\<open>part_000\<close> under the hash that answers 0 everywhere.
\<close>

theorem tokens_stay_in_the_doubling_family_witness:
  "tokens_ok_store (step_p2 (Click 0 0) (startup_p2 None rich))
   \<and> tokens_ok_store (step_p1 (Click 0 0) (the (startup_p1 None None None rich)))
   \<and> tokens_ok_store (step_p2 (Click 0 0) (store_with (Some 8) (Some 8)))
   \<and> tokens_ok_store (step_p1 (Click 0 0) (store_with (Some 8) (Some 8)))
   \<and> doubling_token (fst (getCellToken 0 0 (store_with (Some 8) (Some 8))))
   \<and> tokens_ok_grid (step_main (Click 0 0) (startup_main None rich))
   \<and> tokens_ok_grid (step_main (Click 0 0) (grid_with (Some 8) (Some 8)))
   \<and> tokens_ok_grid (renderCell_main 0 0 (grid_with (Some 8) (Some 8)))
   \<and> tokens_ok_grid (step_p0 (Click 0 0) (startup_p0 (\<lambda>seed. 0) None dry))
   \<and> tokens_ok_grid (step_p0 (Click 0 0) (grid_with (Some 8) (Some 8)))
   \<and> tokens_ok_grid (renderCell_p0 (\<lambda>seed. 0) 0 0 (grid_with (Some 8) (Some 8)))"
proof -
  have r2: "reachable_p2 (step_p2 (Click 0 0) (startup_p2 None rich))"
    by (intro reachable_p2.intros)
  have "startup_p1 None None None rich = Some (the (startup_p1 None None None rich))"
    by (simp add: startup_p1_fresh)
  then have "reachable_fresh_p1 (the (startup_p1 None None None rich))" by (rule start_fresh_p1)
  then have r1: "reachable_fresh_p1 (step_p1 (Click 0 0) (the (startup_p1 None None None rich)))"
    by (rule step_fresh_p1)
  have rm: "reachable_main (step_main (Click 0 0) (startup_main None rich))"
    by (intro reachable_main.intros)
  have r0: "reachable_p0 (\<lambda>seed. 0) (step_p0 (Click 0 0) (startup_p0 (\<lambda>seed. 0) None dry))"
    by (intro reachable_p0.intros)
  have l: "\<forall>seed::string. (0::real) \<le> (\<lambda>seed. 0) seed" by simp
  have a: "tokens_ok_store (step_p2 (Click 0 0) (startup_p2 None rich))
      \<and> tokens_ok_store (step_p2 (Click 0 0) (store_with (Some 8) (Some 8)))
      \<and> tokens_ok_store (step_p1 (Click 0 0) (store_with (Some 8) (Some 8)))
      \<and> doubling_token (fst (getCellToken 0 0 (store_with (Some 8) (Some 8))))
      \<and> tokens_ok_grid (step_main (Click 0 0) (startup_main None rich))
      \<and> tokens_ok_grid (step_main (Click 0 0) (grid_with (Some 8) (Some 8)))
      \<and> tokens_ok_grid (renderCell_main 0 0 (grid_with (Some 8) (Some 8)))"
    using tokens_stay_in_the_doubling_family
      [where s = "step_p2 (Click 0 0) (startup_p2 None rich)"
         and u = "store_with (Some 8) (Some 8)" and e = "Click 0 0" and i = 0 and j = 0
         and t = "step_main (Click 0 0) (startup_main None rich)"
         and w = "grid_with (Some 8) (Some 8)"]
      r2 rm with_tokens_ok
    by blast
  have b: "tokens_ok_store (step_p1 (Click 0 0) (the (startup_p1 None None None rich)))
      \<and> tokens_ok_grid (step_p0 (Click 0 0) (startup_p0 (\<lambda>seed. 0) None dry))
      \<and> tokens_ok_grid (step_p0 (Click 0 0) (grid_with (Some 8) (Some 8)))
      \<and> tokens_ok_grid (renderCell_p0 (\<lambda>seed. 0) 0 0 (grid_with (Some 8) (Some 8)))"
    using tokens_stay_in_the_doubling_family
      [where s = "step_p1 (Click 0 0) (the (startup_p1 None None None rich))"
         and e = "Click 0 0" and i = 0 and j = 0 and luck = "\<lambda>seed. 0"
         and t = "step_p0 (Click 0 0) (startup_p0 (\<lambda>seed. 0) None dry)"
         and w = "grid_with (Some 8) (Some 8)"]
      r1 r0 l with_tokens_ok
    by blast
  from a b show ?thesis by (simp only: simp_thms)
qed

end
